theory Spec2Isabelle
  imports Complex_Main "HOL-Library.AList"
begin

section \<open>Values, entity instances and the storage engine\<close>

text \<open>
  The repository of \<^verbatim>\<open>src/core/bases/base_repository.py\<close> is generic over one entity
  class and talks to a storage engine through a session. Python values that reach the
  repository (identifiers, filter values, attribute values) are modelled by \<open>pyval\<close>
  (\<open>VObj\<close> is any other object, with its \<^verbatim>\<open>arg\<close> attribute when it has one); an
  entity instance is the association list of its attribute values; the entity class is
  the list of the fields it declares (the columns of its table), the defaults of its
  fields, and the other names that the class answers to, each with its kind and the object
  that \<^verbatim>\<open>getattr\<close> returns for it: class variables and read-only properties such as
  \<^verbatim>\<open>metadata\<close>, methods such as \<^verbatim>\<open>model_dump\<close>, and names that begin with an underscore
  such as \<^verbatim>\<open>__doc__\<close>, which every entity class inherits, and whatever else the class
  defines that is no field. \<^verbatim>\<open>hasattr(self.model, name)\<close> and \<^verbatim>\<open>hasattr(db_obj, name)\<close> are
  true of the fields and of these other members alike. The identifier \<^verbatim>\<open>id\<close> and the
  soft-delete flag \<^verbatim>\<open>is_deleted\<close> are fields wherever a class has them, as \<^verbatim>\<open>BaseModel\<close> in
  \<^verbatim>\<open>src/core/database.py\<close> declares them, so these two names never count among the other
  members.
\<close>

datatype pyval = VNone | VBool bool | VInt int | VStr string | VObj string "pyval option"

type_synonym row = "(string \<times> pyval) list"

datatype member = ClassVar | Method | Private

record entity =
  attributes :: "string list"
  defaults :: "(string \<times> pyval) list"
  class_attributes :: "(string \<times> member \<times> pyval) list"

definition members :: "entity \<Rightarrow> (string \<times> member \<times> pyval) list" where
  "members model = filter (\<lambda>(n, m). n \<noteq> ''id'' \<and> n \<noteq> ''is_deleted'') (class_attributes model)"

definition hasattr :: "entity \<Rightarrow> string \<Rightarrow> bool" where
  "hasattr model name = (name \<in> set (attributes model) \<or> name \<in> set (map fst (members model)))"

text \<open>Python truthiness of a value (\<^verbatim>\<open>not x\<close>, \<^verbatim>\<open>if x\<close>).\<close>

fun truthy :: "pyval \<Rightarrow> bool" where
  "truthy VNone = False"
| "truthy (VBool b) = b"
| "truthy (VInt i) = (i \<noteq> 0)"
| "truthy (VStr s) = (s \<noteq> [])"
| "truthy (VObj n a) = True"

text \<open>
  The storage engine is an external collaborator. Its state is the committed table, the
  rows as the session in flight sees them (\<open>pending\<close>), a log of the calls made to it, and
  a fault schedule: every awaited storage call consumes one entry of the schedule, and
  an entry \<open>Some e\<close> makes that call raise \<open>e\<close>. An exhausted schedule means that no
  further call fails. Rows are read in table order. Opening and closing a session
  and \<^verbatim>\<open>rollback\<close> do not fail.
\<close>

datatype sqla_error = IntegrityError string | OtherSQLAlchemyError string

datatype event = Acquire | Release | Exec | Get | Delete | Commit | Refresh | Rollback

record storage =
  table :: "row list"
  pending :: "row list"
  faults :: "sqla_error option list"
  log :: "event list"

text \<open>
  The exceptions that leave the repository. Those it raises itself carry their message, and
  a translated error keeps its cause. Those that Python and the libraries raise carry the
  name concerned in place of the library's message: \<^verbatim>\<open>TypeError\<close> for a keyword argument
  that names a parameter already bound, and the \<^verbatim>\<open>AttributeError\<close> or \<^verbatim>\<open>ValueError\<close> of an
  assignment to a name that is no field.
\<close>

datatype py_exception =
    RepositoryError string "sqla_error option"
  | AttributeError string
  | ValueError string
  | TypeError string

type_synonym 'a db_result = "(sqla_error + 'a) \<times> storage"
type_synonym 'a op_result = "(py_exception + 'a) \<times> storage"

definition storage_call :: "event \<Rightarrow> storage \<Rightarrow> unit db_result" where
  "storage_call ev s =
     (case faults s of
        [] \<Rightarrow> (Inr (), s\<lparr>log := log s @ [ev]\<rparr>)
      | None # fs \<Rightarrow> (Inr (), s\<lparr>faults := fs, log := log s @ [ev]\<rparr>)
      | Some e # fs \<Rightarrow> (Inl e, s\<lparr>faults := fs, log := log s @ [ev]\<rparr>))"

definition return_db :: "'a \<Rightarrow> storage \<Rightarrow> 'a db_result" where
  "return_db v s = (Inr v, s)"

definition bind_db ::
  "(storage \<Rightarrow> 'a db_result) \<Rightarrow> ('a \<Rightarrow> storage \<Rightarrow> 'b db_result) \<Rightarrow> storage \<Rightarrow> 'b db_result" where
  "bind_db m f s = (case m s of (Inl e, s') \<Rightarrow> (Inl e, s') | (Inr v, s') \<Rightarrow> f v s')"

subsection \<open>Statements and session primitives\<close>

text \<open>
  A select statement is the conjunction of its \<^verbatim>\<open>where\<close> clauses (\<^verbatim>\<open>column == value\<close>,
  \<^verbatim>\<open>column.in_(values)\<close>, or a plain Python boolean, which the statement takes as the
  constant condition), with an optional offset/limit window. A row satisfies an equality
  clause when it holds exactly that value in that column.
\<close>

datatype clause = Eq string pyval | IsIn string "pyval list" | Literal bool

type_synonym stmt = "clause list"

fun clause_holds :: "row \<Rightarrow> clause \<Rightarrow> bool" where
  "clause_holds r (Eq c v) = (map_of r c = Some v)"
| "clause_holds r (IsIn c vs) = (case map_of r c of None \<Rightarrow> False | Some v \<Rightarrow> v \<in> set vs)"
| "clause_holds r (Literal b) = b"

definition row_matches :: "stmt \<Rightarrow> row \<Rightarrow> bool" where
  "row_matches conds r = list_all (clause_holds r) conds"

definition db_exec :: "stmt \<Rightarrow> storage \<Rightarrow> row list db_result" where
  "db_exec st = bind_db (storage_call Exec) (\<lambda>_ s. (Inr (filter (row_matches st) (pending s)), s))"

text \<open>
  \<^verbatim>\<open>stmt.offset(skip).limit(limit)\<close> hands both integers to the engine unchecked. The
  engine of this repository's configuration (SQLite, \<^verbatim>\<open>src/core/config.py\<close>) reads a
  negative offset as zero and a negative limit as no limit.
\<close>

definition window :: "int \<Rightarrow> int \<Rightarrow> 'a list \<Rightarrow> 'a list" where
  "window skip limit rows =
     (if limit < 0 then drop (nat skip) rows else take (nat limit) (drop (nat skip) rows))"

definition db_exec_window :: "stmt \<Rightarrow> int \<Rightarrow> int \<Rightarrow> storage \<Rightarrow> row list db_result" where
  "db_exec_window st skip limit =
     bind_db (storage_call Exec)
       (\<lambda>_ s. (Inr (window skip limit (filter (row_matches st) (pending s))), s))"

definition db_exec_count :: "stmt \<Rightarrow> storage \<Rightarrow> int db_result" where
  "db_exec_count st =
     bind_db (storage_call Exec)
       (\<lambda>_ s. (Inr (int (length (filter (row_matches st) (pending s)))), s))"

definition has_id :: "pyval \<Rightarrow> row \<Rightarrow> bool" where
  "has_id item_id r = (map_of r ''id'' = Some item_id)"

definition db_get :: "pyval \<Rightarrow> storage \<Rightarrow> row option db_result" where
  "db_get item_id =
     bind_db (storage_call Get) (\<lambda>_ s. (Inr (find (has_id item_id) (pending s)), s))"

text \<open>\<^verbatim>\<open>setattr(db_obj, key, value)\<close> on the instance that \<^verbatim>\<open>db.get\<close> returned.\<close>

fun update_first :: "('a \<Rightarrow> bool) \<Rightarrow> ('a \<Rightarrow> 'a) \<Rightarrow> 'a list \<Rightarrow> 'a list" where
  "update_first P f [] = []"
| "update_first P f (x # xs) = (if P x then f x # xs else x # update_first P f xs)"

definition setattr :: "pyval \<Rightarrow> string \<Rightarrow> pyval \<Rightarrow> storage \<Rightarrow> storage" where
  "setattr item_id key v s =
     s\<lparr>pending := update_first (has_id item_id) (AList.update key v) (pending s)\<rparr>"

definition db_delete :: "row \<Rightarrow> storage \<Rightarrow> unit db_result" where
  "db_delete obj =
     bind_db (storage_call Delete) (\<lambda>_ s. (Inr (), s\<lparr>pending := remove1 obj (pending s)\<rparr>))"

definition db_commit :: "storage \<Rightarrow> unit db_result" where
  "db_commit = bind_db (storage_call Commit) (\<lambda>_ s. (Inr (), s\<lparr>table := pending s\<rparr>))"

text \<open>\<^verbatim>\<open>db.refresh(obj)\<close> reloads the instance; the engine raises when its row is gone.\<close>

definition db_refresh :: "pyval \<Rightarrow> storage \<Rightarrow> row db_result" where
  "db_refresh item_id =
     bind_db (storage_call Refresh)
       (\<lambda>_ s. (case find (has_id item_id) (table s) of
                  None \<Rightarrow> Inl (OtherSQLAlchemyError ''Could not refresh instance'')
                | Some r \<Rightarrow> Inr r, s))"

definition db_rollback :: "storage \<Rightarrow> storage" where
  "db_rollback s = s\<lparr>pending := table s, log := log s @ [Rollback]\<rparr>"

text \<open>
  \<^verbatim>\<open>db.add(obj)\<close> followed by the flush of the commit: the engine gives a fresh identifier to
  an instance whose \<^verbatim>\<open>id\<close> is \<^verbatim>\<open>None\<close>.
\<close>

fun int_ids :: "row list \<Rightarrow> int list" where
  "int_ids [] = []"
| "int_ids (r # rs) = (case map_of r ''id'' of Some (VInt i) \<Rightarrow> i # int_ids rs | _ \<Rightarrow> int_ids rs)"

definition fresh_id :: "row list \<Rightarrow> int" where
  "fresh_id rs = fold max (int_ids rs) 0 + 1"

definition db_add :: "row \<Rightarrow> storage \<Rightarrow> pyval \<times> storage" where
  "db_add obj s =
     (let oid = (case map_of obj ''id'' of
                   Some VNone \<Rightarrow> VInt (fresh_id (pending s))
                 | None \<Rightarrow> VInt (fresh_id (pending s))
                 | Some v \<Rightarrow> v)
      in (oid, s\<lparr>pending := pending s @ [AList.update ''id'' oid obj]\<rparr>))"

text \<open>\<^verbatim>\<open>async with self.get_session() as db\<close>: a fresh unit of work over the committed table.\<close>

definition with_session :: "(storage \<Rightarrow> 'a op_result) \<Rightarrow> storage \<Rightarrow> 'a op_result" where
  "with_session body s =
     (case body (s\<lparr>pending := table s, log := log s @ [Acquire]\<rparr>) of
        (r, s') \<Rightarrow> (r, s'\<lparr>log := log s' @ [Release]\<rparr>))"

section \<open>The repository\<close>

fun str_of_error :: "sqla_error \<Rightarrow> string" where
  "str_of_error (IntegrityError m) = m"
| "str_of_error (OtherSQLAlchemyError m) = m"

fun handle_db_error :: "sqla_error \<Rightarrow> string \<Rightarrow> py_exception" where
  "handle_db_error (IntegrityError m) operation =
     RepositoryError (''Database integrity error during '' @ operation @ '': '' @ m)
       (Some (IntegrityError m))"
| "handle_db_error (OtherSQLAlchemyError m) operation =
     RepositoryError (''Database error during '' @ operation @ '': '' @ m)
       (Some (OtherSQLAlchemyError m))"

text \<open>
  The two shapes of \<^verbatim>\<open>try\<close> block: read operations translate the error, write operations
  roll back first.
\<close>

definition try_read :: "string \<Rightarrow> (storage \<Rightarrow> 'a db_result) \<Rightarrow> storage \<Rightarrow> 'a op_result" where
  "try_read operation body s =
     (case body s of
        (Inl e, s') \<Rightarrow> (Inl (handle_db_error e operation), s')
      | (Inr v, s') \<Rightarrow> (Inr v, s'))"

definition try_write :: "string \<Rightarrow> (storage \<Rightarrow> 'a db_result) \<Rightarrow> storage \<Rightarrow> 'a op_result" where
  "try_write operation body s =
     (case body s of
        (Inl e, s') \<Rightarrow> (Inl (handle_db_error e operation), db_rollback s')
      | (Inr v, s') \<Rightarrow> (Inr v, s'))"

text \<open>
  \<^verbatim>\<open>getattr(self.model, field) == value\<close> is a column comparison when the name is a field.
  For any other member of the class it is the Python comparison of that member with the
  value, a plain boolean: \<^verbatim>\<open>stmt.where(False)\<close> lets no row through and \<^verbatim>\<open>stmt.where(True)\<close>
  every row.
\<close>

definition member_value :: "entity \<Rightarrow> string \<Rightarrow> pyval option" where
  "member_value model name = map_option snd (map_of (members model) name)"

definition where_clause :: "entity \<Rightarrow> string \<times> pyval \<Rightarrow> clause" where
  "where_clause model =
     (\<lambda>(field, v). if field \<in> set (attributes model) then Eq field v
                    else Literal (member_value model field = Some v))"

definition build_select_stmt :: "entity \<Rightarrow> bool \<Rightarrow> (string \<times> pyval) list \<Rightarrow> stmt" where
  "build_select_stmt model include_deleted filters =
     (if \<not> include_deleted \<and> hasattr model ''is_deleted''
      then [Eq ''is_deleted'' (VBool False)] else [])
     @ map (where_clause model) (filter (\<lambda>(field, v). hasattr model field) filters)"

definition first :: "'a list \<Rightarrow> 'a option" where
  "first xs = (case xs of [] \<Rightarrow> None | x # _ \<Rightarrow> Some x)"

definition get ::
  "entity \<Rightarrow> pyval \<Rightarrow> bool \<Rightarrow> (string \<times> pyval) list \<Rightarrow> storage \<Rightarrow> row option op_result" where
  "get model item_id include_deleted filters =
     with_session (try_read ''get''
       (bind_db (db_exec (build_select_stmt model include_deleted filters @ [Eq ''id'' item_id]))
          (\<lambda>result. return_db (first result))))"

text \<open>
  \<^verbatim>\<open>get_one(**filters)\<close> forwards its keyword arguments to \<^verbatim>\<open>_build_select_stmt\<close>, whose
  first parameter is named \<^verbatim>\<open>include_deleted\<close>: a keyword of that name binds the
  parameter, every other keyword is a filter.
\<close>

definition get_one :: "entity \<Rightarrow> (string \<times> pyval) list \<Rightarrow> storage \<Rightarrow> row option op_result" where
  "get_one model filters =
     with_session (try_read ''get_one''
       (bind_db
          (db_exec (build_select_stmt model
             (case map_of filters ''include_deleted'' of None \<Rightarrow> False | Some v \<Rightarrow> truthy v)
             (filter (\<lambda>(k, v). k \<noteq> ''include_deleted'') filters)))
          (\<lambda>result. return_db (first result))))"

definition get_many ::
  "entity \<Rightarrow> int \<Rightarrow> int \<Rightarrow> bool \<Rightarrow> (string \<times> pyval) list \<Rightarrow> storage \<Rightarrow> row list op_result" where
  "get_many model skip limit include_deleted filters =
     with_session (try_read ''get_many''
       (db_exec_window (build_select_stmt model include_deleted filters) skip limit))"

record paginated_response =
  success :: bool
  data :: "row list"
  total :: int
  page :: int
  per_page :: int
  pages :: int
  message :: string

definition normalize_page :: "int \<Rightarrow> int" where
  "normalize_page p = (if p < 1 then 1 else p)"

definition normalize_per_page :: "int \<Rightarrow> int" where
  "normalize_per_page k = (if k < 1 \<or> k > 100 then 10 else k)"

definition list_page ::
  "entity \<Rightarrow> int \<Rightarrow> int \<Rightarrow> bool \<Rightarrow> (string \<times> pyval) list \<Rightarrow> storage
     \<Rightarrow> paginated_response op_result" where
  "list_page model page0 per_page0 include_deleted filters =
     (let page' = normalize_page page0;
          per_page' = normalize_per_page per_page0
      in with_session (try_read ''list''
           (let offset = (page' - 1) * per_page';
                st = build_select_stmt model include_deleted filters
            in bind_db (db_exec_count st) (\<lambda>total'.
               bind_db (db_exec_window st offset per_page') (\<lambda>items.
               return_db \<lparr>success = True, data = items, total = total', page = page',
                          per_page = per_page',
                          pages = (total' + per_page' - 1) div per_page',
                          message = ''Items retrieved successfully''\<rparr>)))))"

definition count ::
  "entity \<Rightarrow> bool \<Rightarrow> (string \<times> pyval) list \<Rightarrow> storage \<Rightarrow> int op_result" where
  "count model include_deleted filters =
     with_session (try_read ''count''
       (db_exec_count (build_select_stmt model include_deleted filters)))"

text \<open>
  \<^verbatim>\<open>exists\<close> selects the identifier column only and tests the first result against
  \<^verbatim>\<open>None\<close>.
\<close>

definition exists :: "entity \<Rightarrow> pyval \<Rightarrow> bool \<Rightarrow> storage \<Rightarrow> bool op_result" where
  "exists model item_id include_deleted =
     with_session (try_read ''exists''
       (bind_db
          (db_exec ([Eq ''id'' item_id]
             @ (if \<not> include_deleted \<and> hasattr model ''is_deleted''
                then [Eq ''is_deleted'' (VBool False)] else [])))
          (\<lambda>result. return_db
             (case first result of None \<Rightarrow> False | Some r \<Rightarrow> map_of r ''id'' \<noteq> Some VNone))))"

subsection \<open>Calls with keyword arguments\<close>

text \<open>
  The read operations collect the keywords that name none of their parameters in
  \<^verbatim>\<open>**filters\<close>. A keyword that names a parameter which the call has bound already
  (\<^verbatim>\<open>self\<close> always is) never reaches the body: Python raises \<^verbatim>\<open>TypeError\<close> at the call.
  Below, the parameters of an operation are given as in its body and \<open>kw\<close> is the dict of
  the further keywords of the call.
\<close>

definition call_with ::
  "string list \<Rightarrow> (string \<times> pyval) list \<Rightarrow> (storage \<Rightarrow> 'a op_result) \<Rightarrow> storage \<Rightarrow> 'a op_result" where
  "call_with params kw body s =
     (case find (\<lambda>k. k \<in> set params) (map fst kw) of
        Some k \<Rightarrow> (Inl (TypeError k), s)
      | None \<Rightarrow> body s)"

definition call_get ::
  "entity \<Rightarrow> pyval \<Rightarrow> bool \<Rightarrow> (string \<times> pyval) list \<Rightarrow> storage \<Rightarrow> row option op_result" where
  "call_get model item_id include_deleted kw =
     call_with [''self'', ''item_id'', ''include_deleted''] kw (get model item_id include_deleted kw)"

definition call_get_one :: "entity \<Rightarrow> (string \<times> pyval) list \<Rightarrow> storage \<Rightarrow> row option op_result" where
  "call_get_one model kw = call_with [''self''] kw (get_one model kw)"

definition call_get_many ::
  "entity \<Rightarrow> int \<Rightarrow> int \<Rightarrow> bool \<Rightarrow> (string \<times> pyval) list \<Rightarrow> storage \<Rightarrow> row list op_result" where
  "call_get_many model skip limit include_deleted kw =
     call_with [''self'', ''skip'', ''limit'', ''include_deleted''] kw
       (get_many model skip limit include_deleted kw)"

definition call_list ::
  "entity \<Rightarrow> int \<Rightarrow> int \<Rightarrow> bool \<Rightarrow> (string \<times> pyval) list \<Rightarrow> storage
     \<Rightarrow> paginated_response op_result" where
  "call_list model page0 per_page0 include_deleted kw =
     call_with [''self'', ''page'', ''per_page'', ''include_deleted''] kw
       (list_page model page0 per_page0 include_deleted kw)"

definition call_count ::
  "entity \<Rightarrow> bool \<Rightarrow> (string \<times> pyval) list \<Rightarrow> storage \<Rightarrow> int op_result" where
  "call_count model include_deleted kw =
     call_with [''self'', ''include_deleted''] kw (count model include_deleted kw)"

subsection \<open>Writes\<close>

text \<open>
  The input of \<^verbatim>\<open>create\<close> and \<^verbatim>\<open>update\<close> is a dict or a schema instance; of a schema
  instance the model keeps the fields that were set and the ones left at their default,
  which is what \<^verbatim>\<open>model_dump(exclude_unset=...)\<close> distinguishes.
\<close>

datatype obj_in = Dict "(string \<times> pyval) list" | Schema "(string \<times> pyval) list" "(string \<times> pyval) list"

fun model_dump :: "bool \<Rightarrow> obj_in \<Rightarrow> (string \<times> pyval) list" where
  "model_dump exclude_unset (Dict d) = d"
| "model_dump exclude_unset (Schema fields_set fields_unset) =
     (if exclude_unset then fields_set else fields_set @ fields_unset)"

text \<open>\<^verbatim>\<open>self.model(**data)\<close>: every declared attribute, from the data or its default.\<close>

definition new_instance :: "entity \<Rightarrow> (string \<times> pyval) list \<Rightarrow> row" where
  "new_instance model d =
     map (\<lambda>a. (a, case map_of d a of
                    Some v \<Rightarrow> v
                  | None \<Rightarrow> (case map_of (defaults model) a of Some v \<Rightarrow> v | None \<Rightarrow> VNone)))
         (attributes model)"

definition create :: "entity \<Rightarrow> obj_in \<Rightarrow> storage \<Rightarrow> row op_result" where
  "create model obj =
     with_session (try_write ''create''
       (\<lambda>s. case db_add (new_instance model (model_dump True obj)) s of
               (oid, s1) \<Rightarrow> bind_db db_commit (\<lambda>_. db_refresh oid) s1))"

fun add_all :: "row list \<Rightarrow> storage \<Rightarrow> pyval list \<times> storage" where
  "add_all [] s = ([], s)"
| "add_all (obj # objs) s =
     (case db_add obj s of (oid, s1) \<Rightarrow>
        (case add_all objs s1 of (oids, s2) \<Rightarrow> (oid # oids, s2)))"

fun refresh_all :: "pyval list \<Rightarrow> storage \<Rightarrow> row list db_result" where
  "refresh_all [] = return_db []"
| "refresh_all (oid # oids) =
     bind_db (db_refresh oid) (\<lambda>obj. bind_db (refresh_all oids) (\<lambda>objs. return_db (obj # objs)))"

definition create_many :: "entity \<Rightarrow> obj_in list \<Rightarrow> storage \<Rightarrow> row list op_result" where
  "create_many model objects_in =
     with_session (try_write ''create_many''
       (\<lambda>s. case add_all (map (\<lambda>obj. new_instance model (model_dump True obj)) objects_in) s of
               (oids, s1) \<Rightarrow> bind_db db_commit (\<lambda>_. refresh_all oids) s1))"

text \<open>
  \<^verbatim>\<open>setattr(db_obj, key, value)\<close> as the loop of \<^verbatim>\<open>update\<close> reaches it, on any name that
  \<^verbatim>\<open>hasattr\<close> accepts: a field is assigned; a name that begins with an underscore becomes a
  plain attribute of the instance, which no column holds; the instance refuses every other
  member of its class, with \<^verbatim>\<open>AttributeError\<close> for a class variable or read-only property and
  \<^verbatim>\<open>ValueError\<close> for any other name.
\<close>

definition instance_setattr ::
  "entity \<Rightarrow> pyval \<Rightarrow> string \<Rightarrow> pyval \<Rightarrow> storage \<Rightarrow> py_exception + storage" where
  "instance_setattr model item_id key v s =
     (if key \<in> set (attributes model) then Inr (setattr item_id key v s)
      else (case map_of (members model) key of
              Some (ClassVar, _) \<Rightarrow> Inl (AttributeError key)
            | Some (Private, _) \<Rightarrow> Inr s
            | _ \<Rightarrow> Inl (ValueError key)))"

text \<open>The loop of \<^verbatim>\<open>update\<close> over the change-set, on the instance \<^verbatim>\<open>db.get\<close> returned.\<close>

fun apply_update ::
  "entity \<Rightarrow> pyval \<Rightarrow> (string \<times> pyval) list \<Rightarrow> storage \<Rightarrow> py_exception + storage" where
  "apply_update model item_id [] s = Inr s"
| "apply_update model item_id ((key, v) # kvs) s =
     (if hasattr model key \<and> key \<noteq> ''id''
      then (case instance_setattr model item_id key v s of
              Inl ex \<Rightarrow> Inl ex
            | Inr s' \<Rightarrow> apply_update model item_id kvs s')
      else apply_update model item_id kvs s)"

text \<open>
  An exception that is no storage error passes the \<^verbatim>\<open>except SQLAlchemyError\<close> clause
  untouched and leaves through the session, which closes without a commit: the body of the
  \<^verbatim>\<open>try\<close> block hands it over as a value and \<open>reraise\<close> raises it.
\<close>

definition reraise :: "(py_exception + 'a) op_result \<Rightarrow> 'a op_result" where
  "reraise res =
     (case res of
        (Inl e, s) \<Rightarrow> (Inl e, s)
      | (Inr (Inl ex), s) \<Rightarrow> (Inl ex, s)
      | (Inr (Inr v), s) \<Rightarrow> (Inr v, s))"

definition update ::
  "entity \<Rightarrow> pyval \<Rightarrow> obj_in \<Rightarrow> bool \<Rightarrow> storage \<Rightarrow> row option op_result" where
  "update model item_id obj exclude_unset s =
     (let update_data = filter (\<lambda>(k, v). k \<noteq> ''id'') (model_dump exclude_unset obj)
      in if update_data = []
         then (Inl (RepositoryError ''No data provided for update'' None), s)
         else reraise (with_session (try_write ''update''
                (bind_db (db_get item_id) (\<lambda>db_obj.
                   case db_obj of
                     None \<Rightarrow> return_db (Inr None)
                   | Some _ \<Rightarrow>
                       (\<lambda>s1. case apply_update model item_id update_data s1 of
                                Inl ex \<Rightarrow> (Inr (Inl ex), s1)
                              | Inr s2 \<Rightarrow>
                                  bind_db db_commit
                                    (\<lambda>_. bind_db (db_refresh item_id) (\<lambda>r. return_db (Inr (Some r))))
                                    s2)))) s))"

definition soft_delete :: "entity \<Rightarrow> pyval \<Rightarrow> storage \<Rightarrow> bool op_result" where
  "soft_delete model item_id s =
     (if \<not> hasattr model ''is_deleted''
      then (Inl (AttributeError ''Model must have 'is_deleted' field for soft delete''), s)
      else with_session (try_write ''soft_delete''
             (bind_db (db_get item_id) (\<lambda>db_obj.
                case db_obj of
                  None \<Rightarrow> return_db False
                | Some _ \<Rightarrow>
                    (\<lambda>s1. bind_db db_commit (\<lambda>_. return_db True)
                             (setattr item_id ''is_deleted'' (VBool True) s1))))) s)"

definition restore :: "entity \<Rightarrow> pyval \<Rightarrow> storage \<Rightarrow> bool op_result" where
  "restore model item_id s =
     (if \<not> hasattr model ''is_deleted''
      then (Inl (AttributeError ''Model must have 'is_deleted' field for restore''), s)
      else with_session (try_write ''restore''
             (bind_db (db_get item_id) (\<lambda>db_obj.
                case db_obj of
                  None \<Rightarrow> return_db False
                | Some _ \<Rightarrow>
                    (\<lambda>s1. bind_db db_commit (\<lambda>_. return_db True)
                             (setattr item_id ''is_deleted'' (VBool False) s1))))) s)"

definition force_delete :: "entity \<Rightarrow> pyval \<Rightarrow> storage \<Rightarrow> bool op_result" where
  "force_delete model item_id =
     with_session (try_write ''force_delete''
       (bind_db (db_get item_id) (\<lambda>db_obj.
          case db_obj of
            None \<Rightarrow> return_db False
          | Some obj \<Rightarrow> bind_db (db_delete obj) (\<lambda>_. bind_db db_commit (\<lambda>_. return_db True)))))"

fun delete_all :: "row list \<Rightarrow> storage \<Rightarrow> unit db_result" where
  "delete_all [] = return_db ()"
| "delete_all (obj # objs) = bind_db (db_delete obj) (\<lambda>_. delete_all objs)"

definition force_delete_many :: "entity \<Rightarrow> pyval list \<Rightarrow> storage \<Rightarrow> bool op_result" where
  "force_delete_many model item_ids =
     with_session (try_write ''force_delete_many''
       (bind_db (db_exec [IsIn ''id'' item_ids]) (\<lambda>objects.
          bind_db (delete_all objects) (\<lambda>_. bind_db db_commit (\<lambda>_. return_db True)))))"

section \<open>Field introspection\<close>

subsection \<open>Python strings\<close>

text \<open>The string methods the introspection code calls, on ASCII text.\<close>

definition isupper :: "char \<Rightarrow> bool" where
  "isupper c = (65 \<le> (of_char c :: nat) \<and> (of_char c :: nat) \<le> 90)"

definition islower :: "char \<Rightarrow> bool" where
  "islower c = (97 \<le> (of_char c :: nat) \<and> (of_char c :: nat) \<le> 122)"

definition char_lower :: "char \<Rightarrow> char" where
  "char_lower c = (if isupper c then char_of ((of_char c :: nat) + 32) else c)"

definition char_upper :: "char \<Rightarrow> char" where
  "char_upper c = (if islower c then char_of ((of_char c :: nat) - 32) else c)"

definition lower :: "string \<Rightarrow> string" where
  "lower s = map char_lower s"

definition capitalize :: "string \<Rightarrow> string" where
  "capitalize s = (case s of [] \<Rightarrow> [] | c # cs \<Rightarrow> char_upper c # map char_lower cs)"

fun title_from :: "bool \<Rightarrow> string \<Rightarrow> string" where
  "title_from previous_is_cased [] = []"
| "title_from previous_is_cased (c # cs) =
     (if islower c then (if previous_is_cased then c else char_upper c) # title_from True cs
      else if isupper c then (if previous_is_cased then char_lower c else c) # title_from True cs
      else c # title_from False cs)"

definition title :: "string \<Rightarrow> string" where
  "title s = title_from False s"

definition replace :: "char \<Rightarrow> char \<Rightarrow> string \<Rightarrow> string" where
  "replace old new s = map (\<lambda>c. if c = old then new else c) s"

definition startswith :: "string \<Rightarrow> string \<Rightarrow> bool" where
  "startswith s p = (take (length p) s = p)"

definition endswith :: "string \<Rightarrow> string \<Rightarrow> bool" where
  "endswith s p = (length p \<le> length s \<and> drop (length s - length p) s = p)"

fun contains :: "string \<Rightarrow> string \<Rightarrow> bool" where
  "contains sub [] = (sub = [])"
| "contains sub (c # cs) = (startswith (c # cs) sub \<or> contains sub cs)"

subsection \<open>Type objects and field metadata\<close>

text \<open>
  The introspector reads a declared type only through \<^verbatim>\<open>__origin__\<close>, \<^verbatim>\<open>__args__\<close>,
  \<^verbatim>\<open>__name__\<close>, \<^verbatim>\<open>str()\<close> and identity tests against \<^verbatim>\<open>typing.Optional\<close>, \<^verbatim>\<open>list\<close> and
  the keys of \<^verbatim>\<open>TYPE_MAPPINGS\<close>. A type object is modelled by exactly these observations:
  which of the well-known objects it is (\<open>Other_object\<close> for any other), and each attribute
  when present.
\<close>

datatype py_ident =
    Builtin_str | Builtin_int | Builtin_float | Builtin_bool | Builtin_dict | Builtin_list
  | Typing_Optional | Typing_Union | Other_object

datatype py_type =
  PyType (ident: py_ident) (dunder_name: "string option") (dunder_origin: "py_type option")
    (dunder_args: "py_type list option") (str_of: string)

text \<open>
  The type objects of the Python runtime. \<^verbatim>\<open>Optional[T]\<close> evaluates to \<^verbatim>\<open>Union[T, None]\<close>:
  its \<^verbatim>\<open>__origin__\<close> is \<^verbatim>\<open>typing.Union\<close> and its \<^verbatim>\<open>__args__\<close> are \<^verbatim>\<open>(T, NoneType)\<close>;
  \<^verbatim>\<open>List[T]\<close> has \<^verbatim>\<open>__origin__\<close> \<^verbatim>\<open>list\<close> and \<^verbatim>\<open>__args__\<close> \<^verbatim>\<open>(T,)\<close>. Whether an alias has a
  \<^verbatim>\<open>__name__\<close> differs between Python versions, so it is a parameter here.
\<close>

definition py_class :: "py_ident \<Rightarrow> string \<Rightarrow> py_type" where
  "py_class i n = PyType i (Some n) None None (''<class '' @ [CHR 0x27] @ n @ [CHR 0x27] @ ''>'')"

definition py_str :: py_type where "py_str = py_class Builtin_str ''str''"
definition py_int :: py_type where "py_int = py_class Builtin_int ''int''"
definition py_bool :: py_type where "py_bool = py_class Builtin_bool ''bool''"
definition py_datetime :: py_type where "py_datetime = py_class Other_object ''datetime''"
definition py_NoneType :: py_type where "py_NoneType = py_class Other_object ''NoneType''"

definition typing_Union :: "string option \<Rightarrow> py_type" where
  "typing_Union n = PyType Typing_Union n None None ''typing.Union''"

definition typing_Optional_of :: "string option \<Rightarrow> string option \<Rightarrow> py_type \<Rightarrow> py_type" where
  "typing_Optional_of alias_name union_name t =
     PyType Other_object alias_name (Some (typing_Union union_name)) (Some [t, py_NoneType])
       (''typing.Optional['' @ (case dunder_name t of Some n \<Rightarrow> n | None \<Rightarrow> str_of t) @ '']'')"

definition typing_List_of :: "string option \<Rightarrow> py_type \<Rightarrow> py_type" where
  "typing_List_of alias_name t =
     PyType Other_object alias_name (Some (py_class Builtin_list ''list'')) (Some [t])
       (''typing.List['' @ (case dunder_name t of Some n \<Rightarrow> n | None \<Rightarrow> str_of t) @ '']'')"

text \<open>
  The entry of \<^verbatim>\<open>model_class.__fields__\<close> for a field: its \<^verbatim>\<open>default\<close> attribute and its
  \<^verbatim>\<open>field_info\<close> attribute, each \<open>None\<close> when the object has no such attribute.
\<close>

record py_field_extra =
  extra_default :: "pyval option"
  extra_max_length :: "pyval option"
  extra_ge :: "pyval option"
  extra_le :: "pyval option"

record py_field_info =
  info_default :: "pyval option"
  info_field_info :: "py_field_extra option"

record py_model_class =
  dunder_class_name :: string
  dunder_tablename :: "string option"
  dunder_fields :: "(string \<times> py_field_info) list"
  type_hints :: "(string \<times> py_type) list"

subsection \<open>The schemas of \<^verbatim>\<open>src/core/schemas/fields.py\<close>\<close>

datatype FieldType = STRING | INTEGER | FLOAT | BOOLEAN | DATETIME | TEXT | JSON | EMAIL | URL | UUID

fun FieldType_value :: "FieldType \<Rightarrow> string" where
  "FieldType_value STRING = ''string''"
| "FieldType_value INTEGER = ''integer''"
| "FieldType_value FLOAT = ''float''"
| "FieldType_value BOOLEAN = ''boolean''"
| "FieldType_value DATETIME = ''datetime''"
| "FieldType_value TEXT = ''text''"
| "FieldType_value JSON = ''json''"
| "FieldType_value EMAIL = ''email''"
| "FieldType_value URL = ''url''"
| "FieldType_value UUID = ''uuid''"

datatype RelationshipType = FOREIGN_KEY | ONE_TO_MANY | MANY_TO_ONE | MANY_TO_MANY

record FieldValidation =
  required :: bool
  min_length :: pyval
  max_length :: pyval
  min_value :: pyval
  max_value :: pyval
  pattern :: pyval
  allowed_values :: "string list option"

record RelationshipInfo =
  rel_type :: RelationshipType
  related_model :: string
  related_field :: "string option"
  rel_description :: string

record ModelField =
  name :: string
  field_type :: FieldType
  python_type :: string
  is_required :: bool
  is_relationship :: bool
  is_list :: bool
  default_value :: pyval
  validation :: "FieldValidation option"
  relationship :: "RelationshipInfo option"
  description :: "string option"

record ModelDefinition =
  model_name :: string
  table_name :: string
  model_fields :: "ModelField list"
  relationships :: "RelationshipInfo list"

record DynamicFormConfig =
  form_model_name :: string
  form_fields :: "ModelField list"
  layout :: "(string \<times> pyval) list list"
  validation_rules :: "(string \<times> (string \<times> pyval) list) list"

datatype py_error = IndexError

subsection \<open>\<^verbatim>\<open>FieldService\<close>\<close>

definition TYPE_MAPPINGS :: "py_ident \<Rightarrow> FieldType option" where
  "TYPE_MAPPINGS i =
     (case i of
        Builtin_str \<Rightarrow> Some STRING
      | Builtin_int \<Rightarrow> Some INTEGER
      | Builtin_float \<Rightarrow> Some FLOAT
      | Builtin_bool \<Rightarrow> Some BOOLEAN
      | Builtin_dict \<Rightarrow> Some JSON
      | Builtin_list \<Rightarrow> Some JSON
      | _ \<Rightarrow> None)"

definition origin_or_self :: "py_type \<Rightarrow> py_type" where
  "origin_or_self t = (case dunder_origin t of Some orig \<Rightarrow> orig | None \<Rightarrow> t)"

definition args_or_empty :: "py_type \<Rightarrow> py_type list" where
  "args_or_empty t = (case dunder_args t of Some a \<Rightarrow> a | None \<Rightarrow> [])"

definition named_type :: "py_type \<Rightarrow> FieldType" where
  "named_type t =
     (case dunder_name t of
        Some n \<Rightarrow>
          (let type_name = lower n in
           if contains ''uuid'' type_name then UUID
           else if contains ''datetime'' type_name then DATETIME
           else if contains ''email'' type_name then EMAIL
           else if contains ''url'' type_name then URL
           else STRING)
      | None \<Rightarrow> STRING)"

fun get_base_type :: "py_type \<Rightarrow> FieldType" where
  "get_base_type (PyType i n orig args st) =
     (let origin = (case orig of Some t \<Rightarrow> t | None \<Rightarrow> PyType i n orig args st);
          is_optional_origin = (ident origin = Typing_Optional \<or> dunder_name origin = Some ''Optional'');
          is_list_origin = (ident origin = Builtin_list \<or> dunder_name origin = Some ''List'')
      in case args of
           Some (a # rest) \<Rightarrow>
             (if is_optional_origin \<or> is_list_origin then get_base_type a
              else (case TYPE_MAPPINGS (ident origin) of
                      Some ft \<Rightarrow> ft
                    | None \<Rightarrow> named_type (PyType i n orig args st)))
         | _ \<Rightarrow>
             (if is_list_origin then JSON
              else (case TYPE_MAPPINGS (ident origin) of
                      Some ft \<Rightarrow> ft
                    | None \<Rightarrow> named_type (PyType i n orig args st))))"

definition get_python_type_name :: "py_type \<Rightarrow> string" where
  "get_python_type_name t = (case dunder_name t of Some n \<Rightarrow> n | None \<Rightarrow> str_of t)"

definition is_optional_type :: "py_type \<Rightarrow> bool" where
  "is_optional_type t =
     (case dunder_origin t of Some origin \<Rightarrow> ident origin = Typing_Optional | None \<Rightarrow> False)"

definition is_list_type :: "py_type \<Rightarrow> bool" where
  "is_list_type t =
     (case dunder_origin t of Some origin \<Rightarrow> ident origin = Builtin_list | None \<Rightarrow> False)"

text \<open>\<^verbatim>\<open>x.__name__[0].isupper()\<close>, which raises on an empty name.\<close>

definition first_isupper :: "string \<Rightarrow> py_error + bool" where
  "first_isupper n = (case n of [] \<Rightarrow> Inl IndexError | c # _ \<Rightarrow> Inr (isupper c))"

definition primitive_names :: "string list" where
  "primitive_names = [''str'', ''int'', ''float'', ''bool'', ''dict'', ''list'']"

definition one_to_many_rule :: "py_type \<Rightarrow> py_error + RelationshipInfo option" where
  "one_to_many_rule t =
     (if is_list_type t then
        (case args_or_empty t of
           [] \<Rightarrow> Inr None
         | arg_type # _ \<Rightarrow>
             (case dunder_name arg_type of
                None \<Rightarrow> Inr None
              | Some n \<Rightarrow>
                  (case first_isupper n of
                     Inl e \<Rightarrow> Inl e
                   | Inr up \<Rightarrow>
                       if up
                       then Inr (Some \<lparr>rel_type = ONE_TO_MANY, related_model = n,
                                         related_field = None,
                                         rel_description = ''One-to-many relationship with '' @ n\<rparr>)
                       else Inr None)))
      else Inr None)"

definition detect_relationship :: "string \<Rightarrow> py_type \<Rightarrow> py_error + RelationshipInfo option" where
  "detect_relationship fname t =
     (if endswith fname ''_id'' then
        (let related = capitalize (take (length fname - 3) fname)
         in Inr (Some \<lparr>rel_type = FOREIGN_KEY, related_model = related,
                          related_field = Some ''id'',
                          rel_description = ''Foreign key to '' @ related\<rparr>))
      else
        (case dunder_name t of
           None \<Rightarrow> one_to_many_rule t
         | Some n \<Rightarrow>
             (case first_isupper n of
                Inl e \<Rightarrow> Inl e
              | Inr up \<Rightarrow>
                  if up \<and> n \<notin> set primitive_names
                  then Inr (Some \<lparr>rel_type = MANY_TO_ONE, related_model = n,
                                    related_field = None,
                                    rel_description = ''Relationship to '' @ n\<rparr>)
                  else one_to_many_rule t)))"

definition create_validation_rules :: "py_field_info \<Rightarrow> py_type \<Rightarrow> FieldValidation" where
  "create_validation_rules finfo t =
     (let v0 = \<lparr>required = False, min_length = VNone, max_length = VNone, min_value = VNone,
                 max_value = VNone, pattern = VNone, allowed_values = None\<rparr>
      in case info_field_info finfo of
           None \<Rightarrow> v0
         | Some field_extra \<Rightarrow>
             (let v1 = v0\<lparr>required :=
                          (case extra_default field_extra of None \<Rightarrow> True | Some d \<Rightarrow> d = VNone)\<rparr>;
                  v2 = (case extra_max_length field_extra of
                          Some m \<Rightarrow> v1\<lparr>max_length := m\<rparr> | None \<Rightarrow> v1);
                  v3 = (case extra_ge field_extra of
                          Some g \<Rightarrow> v2\<lparr>min_value := g\<rparr> | None \<Rightarrow> v2)
              in (case extra_le field_extra of
                    Some l \<Rightarrow> v3\<lparr>max_value := l\<rparr> | None \<Rightarrow> v3)))"

definition descriptions :: "(string \<times> string) list" where
  "descriptions =
     [(''id'', ''Unique identifier''),
      (''created_at'', ''Creation timestamp''),
      (''updated_at'', ''Last update timestamp''),
      (''is_deleted'', ''Soft delete flag''),
      (''name'', ''Item name''),
      (''title'', ''Item title''),
      (''description'', ''Item description''),
      (''email'', ''Email address''),
      (''password'', ''User password'')]"

definition get_field_description :: "string \<Rightarrow> py_type \<Rightarrow> string" where
  "get_field_description fname t =
     (case map_of descriptions fname of
        Some d \<Rightarrow> d
      | None \<Rightarrow> title (replace (CHR ''_'') (CHR '' '') fname))"

definition field_default :: "py_field_info \<Rightarrow> pyval" where
  "field_default finfo =
     (let dv = (case info_default finfo of Some d \<Rightarrow> d | None \<Rightarrow> VNone)
      in case dv of VObj n (Some a) \<Rightarrow> a | _ \<Rightarrow> dv)"

definition parse_field :: "string \<Rightarrow> py_type \<Rightarrow> py_field_info \<Rightarrow> py_error + ModelField" where
  "parse_field fname t finfo =
     (let base_type = get_base_type t;
          ptype = get_python_type_name t
      in case detect_relationship fname t of
           Inl e \<Rightarrow> Inl e
         | Inr relationship_info \<Rightarrow>
             (let is_optional = is_optional_type t;
                  is_list_v = is_list_type t;
                  dv = field_default finfo;
                  val = create_validation_rules finfo t
              in Inr \<lparr>name = fname, field_type = base_type, python_type = ptype,
                       is_required = (\<not> is_optional \<and> dv = VNone),
                       is_relationship = (relationship_info \<noteq> None),
                       is_list = is_list_v,
                       default_value = dv,
                       validation = Some val,
                       relationship = relationship_info,
                       description = Some (get_field_description fname t)\<rparr>))"

text \<open>The loop of \<^verbatim>\<open>get_model_definition\<close> over \<^verbatim>\<open>model_class.__fields__.items()\<close>.\<close>

fun parse_fields ::
  "(string \<times> py_type) list \<Rightarrow> (string \<times> py_field_info) list
     \<Rightarrow> ModelField list \<Rightarrow> RelationshipInfo list
     \<Rightarrow> py_error + (ModelField list \<times> RelationshipInfo list)" where
  "parse_fields hints [] fs rels = Inr (fs, rels)"
| "parse_fields hints ((field_name, finfo) # rest) fs rels =
     (if startswith field_name ''_'' \<or> field_name \<in> set [''metadata'', ''registry'']
      then parse_fields hints rest fs rels
      else (case parse_field field_name
                   (case map_of hints field_name of Some t \<Rightarrow> t | None \<Rightarrow> py_str) finfo of
              Inl e \<Rightarrow> Inl e
            | Inr field_def \<Rightarrow>
                parse_fields hints rest (fs @ [field_def])
                  (case relationship field_def of
                     Some r \<Rightarrow> if is_relationship field_def then rels @ [r] else rels
                   | None \<Rightarrow> rels)))"

definition get_model_definition :: "py_model_class \<Rightarrow> py_error + ModelDefinition" where
  "get_model_definition model_class =
     (case parse_fields (type_hints model_class) (dunder_fields model_class) [] [] of
        Inl e \<Rightarrow> Inl e
      | Inr (fs, rels) \<Rightarrow>
          Inr \<lparr>model_name = dunder_class_name model_class,
                table_name = (case dunder_tablename model_class of
                                Some t \<Rightarrow> t
                              | None \<Rightarrow> lower (dunder_class_name model_class) @ ''s''),
                model_fields = fs, relationships = rels\<rparr>)"

definition internal_fields :: "string list" where
  "internal_fields = [''id'', ''created_at'', ''updated_at'', ''is_deleted'']"

definition set_if :: "bool \<Rightarrow> string \<Rightarrow> pyval \<Rightarrow> (string \<times> pyval) list \<Rightarrow> (string \<times> pyval) list" where
  "set_if c k v d = (if c then AList.update k v d else d)"

definition options_url :: "RelationshipInfo \<Rightarrow> pyval" where
  "options_url r = VStr (''/api/v1/'' @ lower (related_model r) @ ''s'')"

definition field_config :: "ModelField \<Rightarrow> (string \<times> pyval) list" where
  "field_config f =
     (let c0 = [(''name'', VStr (name f)),
                (''type'', VStr (FieldType_value (field_type f))),
                (''label'', VStr (title (replace (CHR ''_'') (CHR '' '') (name f)))),
                (''required'', VBool (is_required f)),
                (''placeholder'', VStr (''Enter '' @ replace (CHR ''_'') (CHR '' '') (name f)))];
          c1 = (case validation f of
                  None \<Rightarrow> c0
                | Some v \<Rightarrow>
                    set_if (max_value v \<noteq> VNone) ''max'' (max_value v)
                      (set_if (min_value v \<noteq> VNone) ''min'' (min_value v)
                        (set_if (truthy (max_length v)) ''maxLength'' (max_length v)
                          (set_if (truthy (min_length v)) ''minLength'' (min_length v) c0))))
      in case relationship f of
           None \<Rightarrow> c1
         | Some r \<Rightarrow>
             if \<not> is_relationship f then c1
             else if rel_type r = FOREIGN_KEY
               then AList.update ''options'' (options_url r) (AList.update ''type'' (VStr ''select'') c1)
             else if rel_type r = ONE_TO_MANY
               then AList.update ''options'' (options_url r)
                      (AList.update ''type'' (VStr ''multiselect'') c1)
             else c1)"

fun generate_form_layout :: "ModelField list \<Rightarrow> (string \<times> pyval) list list" where
  "generate_form_layout [] = []"
| "generate_form_layout (f # fs) =
     (if name f \<in> set internal_fields then generate_form_layout fs
      else field_config f # generate_form_layout fs)"

definition field_rules :: "ModelField \<Rightarrow> (string \<times> pyval) list" where
  "field_rules f =
     (let r0 = set_if (is_required f) ''required'' (VBool True) []
      in case validation f of
           None \<Rightarrow> r0
         | Some v \<Rightarrow>
             set_if (truthy (pattern v)) ''pattern'' (pattern v)
               (set_if (max_value v \<noteq> VNone) ''max'' (max_value v)
                 (set_if (min_value v \<noteq> VNone) ''min'' (min_value v)
                   (set_if (truthy (max_length v)) ''maxLength'' (max_length v)
                     (set_if (truthy (min_length v)) ''minLength'' (min_length v) r0)))))"

fun validation_rules_loop ::
  "(string \<times> (string \<times> pyval) list) list \<Rightarrow> ModelField list
     \<Rightarrow> (string \<times> (string \<times> pyval) list) list" where
  "validation_rules_loop rules [] = rules"
| "validation_rules_loop rules (f # fs) =
     validation_rules_loop
       (if name f \<in> set internal_fields then rules
        else if field_rules f \<noteq> [] then AList.update (name f) (field_rules f) rules
        else rules) fs"

definition generate_validation_rules ::
  "ModelField list \<Rightarrow> (string \<times> (string \<times> pyval) list) list" where
  "generate_validation_rules fs = validation_rules_loop [] fs"

definition get_dynamic_form_config :: "py_model_class \<Rightarrow> py_error + DynamicFormConfig" where
  "get_dynamic_form_config model_class =
     (case get_model_definition model_class of
        Inl e \<Rightarrow> Inl e
      | Inr model_def \<Rightarrow>
          Inr \<lparr>form_model_name = model_name model_def,
                form_fields = model_fields model_def,
                layout = generate_form_layout (model_fields model_def),
                validation_rules = generate_validation_rules (model_fields model_def)\<rparr>)"

subsection \<open>\<^verbatim>\<open>FieldParser\<close>, the string-based sibling\<close>

text \<open>
  \<^verbatim>\<open>src/core/FieldParser.py\<close> detects relationships from a field name and a type written as
  text. \<^verbatim>\<open>re.match\<close> of \<^verbatim>\<open>wrapper\\[([a-zA-Z_][a-zA-Z0-9_]*)\\]\<close> with \<^verbatim>\<open>re.IGNORECASE\<close>
  succeeds when the text starts with the wrapper and an opening bracket in any case,
  followed by an identifier and a closing bracket; the group is the identifier.
\<close>

definition isdigit :: "char \<Rightarrow> bool" where
  "isdigit c = (48 \<le> (of_char c :: nat) \<and> (of_char c :: nat) \<le> 57)"

definition ident_start :: "char \<Rightarrow> bool" where
  "ident_start c = (isupper c \<or> islower c \<or> c = CHR ''_'')"

definition ident_char :: "char \<Rightarrow> bool" where
  "ident_char c = (ident_start c \<or> isdigit c)"

definition match_wrapper :: "string \<Rightarrow> string \<Rightarrow> string option" where
  "match_wrapper wrapper s =
     (let n = length wrapper + 1;
          rest = drop n s;
          group = takeWhile ident_char rest
      in if lower (take n s) = wrapper @ ''['' \<and> group \<noteq> [] \<and> ident_start (hd group)
            \<and> take 1 (drop (length group) rest) = '']''
         then Some group else None)"

record fp_relationship =
  fp_type :: string
  fp_related_model :: string
  fp_relationship_type :: string
  fp_description :: string

definition fp_detect_relationship :: "string \<Rightarrow> string \<Rightarrow> py_error + fp_relationship option" where
  "fp_detect_relationship fname ftype =
     (if endswith fname ''_id'' \<and> ftype \<in> set [''int'', ''integer''] then
        (let related = capitalize (take (length fname - 3) fname)
         in Inr (Some \<lparr>fp_type = ''ForeignKey'', fp_related_model = related,
                          fp_relationship_type = ''ManyToOne'',
                          fp_description = ''Foreign key to '' @ related\<rparr>))
      else
        (case first_isupper ftype of
           Inl e \<Rightarrow> Inl e
         | Inr up \<Rightarrow>
             if up \<and> \<not> (startswith ftype ''List['' \<or> startswith ftype ''Optional['')
             then Inr (Some \<lparr>fp_type = ''ModelReference'', fp_related_model = ftype,
                               fp_relationship_type = ''ManyToOne'',
                               fp_description = ''Relationship to '' @ ftype\<rparr>)
             else
               (case match_wrapper ''list'' ftype of
                  Some related \<Rightarrow>
                    Inr (Some \<lparr>fp_type = ''OneToMany'', fp_related_model = related,
                                  fp_relationship_type = ''OneToMany'',
                                  fp_description = ''One-to-many relationship with '' @ related\<rparr>)
                | None \<Rightarrow>
                    (case match_wrapper ''optional'' ftype of
                       Some related \<Rightarrow>
                         Inr (Some \<lparr>fp_type = ''ManyToOne'', fp_related_model = related,
                                       fp_relationship_type = ''ManyToOne'',
                                       fp_description = ''Many-to-one relationship with '' @ related\<rparr>)
                     | None \<Rightarrow> Inr None))))"

section \<open>Example data\<close>

definition post_model :: entity where
  "post_model = \<lparr>attributes = [''id'', ''title'', ''is_deleted''],
                   defaults = [(''id'', VNone), (''is_deleted'', VBool False)],
                   class_attributes = [(''metadata'', ClassVar, VObj ''MetaData'' None),
                                       (''model_dump'', Method, VObj ''function'' None)]\<rparr>"

definition post_row :: "int \<Rightarrow> string \<Rightarrow> bool \<Rightarrow> row" where
  "post_row i t d = [(''id'', VInt i), (''title'', VStr t), (''is_deleted'', VBool d)]"

definition tag_model :: entity where
  "tag_model = \<lparr>attributes = [''id'', ''label''], defaults = [(''id'', VNone)],
                  class_attributes = [(''metadata'', ClassVar, VObj ''MetaData'' None),
                                       (''model_dump'', Method, VObj ''function'' None)]\<rparr>"

text \<open>
  The entity of the form-configuration scenario, with the fields \<^verbatim>\<open>id\<close>, \<^verbatim>\<open>title\<close>,
  \<^verbatim>\<open>author_id\<close>, \<^verbatim>\<open>created_at\<close>, \<^verbatim>\<open>updated_at\<close> and \<^verbatim>\<open>is_deleted\<close>, the four ambient ones as
  \<^verbatim>\<open>BaseModel\<close> declares them. Its parameter is what the \<^verbatim>\<open>default\<close> attribute of a field
  holds when the field declares no default value: that is \<^verbatim>\<open>None\<close> under pydantic 1 and
  the marker object \<^verbatim>\<open>PydanticUndefined\<close> under pydantic 2.
\<close>

definition undefined_marker :: pyval where
  "undefined_marker = VObj ''PydanticUndefined'' None"

definition field_with_default :: "pyval \<Rightarrow> py_field_info" where
  "field_with_default d = \<lparr>info_default = Some d, info_field_info = None\<rparr>"

definition article_class :: "pyval \<Rightarrow> py_model_class" where
  "article_class missing =
     \<lparr>dunder_class_name = ''Article'', dunder_tablename = None,
      dunder_fields =
        [(''id'', field_with_default VNone),
         (''title'', field_with_default missing),
         (''author_id'', field_with_default missing),
         (''created_at'', field_with_default missing),
         (''updated_at'', field_with_default missing),
         (''is_deleted'', field_with_default (VBool False))],
      type_hints =
        [(''id'', typing_Optional_of (Some ''Optional'') (Some ''Union'') py_int),
         (''title'', py_str),
         (''author_id'', py_int),
         (''created_at'', py_datetime),
         (''updated_at'', py_datetime),
         (''is_deleted'', py_bool)]\<rparr>"

definition failing_posts :: storage where
  "failing_posts =
     \<lparr>table = [post_row 1 ''a'' False], pending = [],
      faults = [Some (IntegrityError ''UNIQUE constraint failed'')], log = []\<rparr>"

definition three_posts :: storage where
  "three_posts = \<lparr>table = [post_row 1 ''a'' False, post_row 2 ''b'' True, post_row 3 ''c'' False],
                    pending = [], faults = [], log = []\<rparr>"

section \<open>Properties of the storage model\<close>

definition next_fault :: "storage \<Rightarrow> sqla_error option" where
  "next_fault s = (case faults s of [] \<Rightarrow> None | f # _ \<Rightarrow> f)"

definition advance :: "event \<Rightarrow> storage \<Rightarrow> storage" where
  "advance ev s = s\<lparr>faults := tl (faults s), log := log s @ [ev]\<rparr>"

text \<open>The next \<open>n\<close> storage calls do not fail.\<close>

definition no_faults :: "nat \<Rightarrow> storage \<Rightarrow> bool" where
  "no_faults n s = list_all (\<lambda>f. f = None) (take n (faults s))"

text \<open>
  What error handling has to achieve. \<open>no_fault_hit\<close>: the storage calls made between two
  states consumed only entries of the fault schedule that do not fail. \<open>failed_with\<close>: the
  storage calls made between two states ended with the one that raised \<open>e\<close>, which is the
  first fault of the schedule after entries that do not fail, or the refresh of an instance
  whose row is gone. \<open>error_policy\<close>: an operation that raised a \<^verbatim>\<open>RepositoryError\<close> with a
  cause did so with the error that \<^verbatim>\<open>_handle_db_error\<close> builds for this operation from that
  cause, the cause is the storage error that was raised, and a rollback (the last storage
  event before the session is released) has left no pending change; and with any other
  outcome, a result or an exception that is no translated storage error, no storage call
  has failed. \<open>keeps_schedule\<close>: a computation consumes the schedule from the front, returns
  a value only when no consumed entry was a fault, and otherwise raises the storage error
  that occurred.
\<close>

definition ends_rolled_back :: "event list \<Rightarrow> bool" where
  "ends_rolled_back l = (2 \<le> length l \<and> drop (length l - 2) l = [Rollback, Release])"

definition no_fault_hit :: "storage \<Rightarrow> storage \<Rightarrow> bool" where
  "no_fault_hit s s' =
     list_ex (\<lambda>n. faults s' = drop n (faults s) \<and> list_all (\<lambda>f. f = None) (take n (faults s)))
       [0..<Suc (length (faults s))]"

definition failed_with :: "storage \<Rightarrow> storage \<Rightarrow> sqla_error \<Rightarrow> bool" where
  "failed_with s s' e =
     (list_ex (\<lambda>n. faults s' = drop (Suc n) (faults s)
                   \<and> list_all (\<lambda>f. f = None) (take n (faults s)) \<and> faults s ! n = Some e)
        [0..<length (faults s)]
      \<or> (no_fault_hit s s' \<and> e = OtherSQLAlchemyError ''Could not refresh instance''))"

definition error_policy :: "string \<Rightarrow> storage \<Rightarrow> 'a op_result \<Rightarrow> bool" where
  "error_policy operation s res =
     (case fst res of
        Inl (RepositoryError msg (Some e)) \<Rightarrow>
          RepositoryError msg (Some e) = handle_db_error e operation
          \<and> failed_with s (snd res) e
          \<and> ends_rolled_back (log (snd res)) \<and> pending (snd res) = table (snd res)
      | _ \<Rightarrow> no_fault_hit s (snd res))"

definition keeps_schedule :: "(storage \<Rightarrow> 'a db_result) \<Rightarrow> bool" where
  "keeps_schedule c =
     (\<forall>s. case fst (c s) of
            Inl e \<Rightarrow> failed_with s (snd (c s)) e
          | Inr v \<Rightarrow> no_fault_hit s (snd (c s)))"

text \<open>A record whose soft-delete flag is set.\<close>

definition soft_deleted :: "row \<Rightarrow> bool" where
  "soft_deleted r = (map_of r ''is_deleted'' = Some (VBool True))"

text \<open>
  A keyword dict without one key, and what the filters demand of a row: a filter on a field
  demands its value of the row, a filter on another member of the class demands the
  member itself (of no row, when it differs), a filter on any other name demands nothing.
\<close>

definition without_key :: "string \<Rightarrow> (string \<times> pyval) list \<Rightarrow> (string \<times> pyval) list" where
  "without_key k d = filter (\<lambda>(f, v). f \<noteq> k) d"

definition filters_hold :: "entity \<Rightarrow> (string \<times> pyval) list \<Rightarrow> row \<Rightarrow> bool" where
  "filters_hold model filters r =
     list_all (\<lambda>(f, v). \<not> hasattr model f
                  \<or> (if f \<in> set (attributes model) then map_of r f = Some v
                      else member_value model f = Some v))
       filters"

lemma storage_call_alt:
  "storage_call ev s = (case next_fault s of None \<Rightarrow> (Inr (), advance ev s) | Some e \<Rightarrow> (Inl e, advance ev s))"
  by (cases s) (simp add: storage_call_def next_fault_def advance_def split: list.splits option.splits)

lemma ceil_div:
  assumes "0 < (k::int)"
  shows "(t + k - 1) div k = \<lceil>real_of_int t / real_of_int k\<rceil>"
proof -
  have c: "\<lceil>real_of_int t / real_of_int k\<rceil> = - ((- t) div k)"
    by (rule ceiling_divide_eq_div)
  have h: "t + k - 1 = (t mod k + k - 1) + (t div k) * k"
    by (simp add: algebra_simps)
  have "(t + k - 1) div k = (t mod k + k - 1 + (t div k) * k) div k"
    by (rule arg_cong [where f = "\<lambda>x. x div k", OF h])
  also have "\<dots> = (t mod k + k - 1) div k + t div k"
    using assms div_mult_self1 [of k "t mod k + k - 1" "t div k"] by simp
  finally have e: "(t + k - 1) div k = (t mod k + k - 1) div k + t div k" .
  show ?thesis
  proof (cases "t mod k = 0")
    case True
    then have "(t mod k + k - 1) div k = 0"
      using assms by (simp add: div_pos_pos_trivial)
    with True e c assms show ?thesis
      by (simp add: zdiv_zminus1_eq_if)
  next
    case False
    have "0 \<le> t mod k" "t mod k < k" using assms by simp_all
    with False have r: "0 \<le> t mod k - 1" "t mod k - 1 < k" by simp_all
    have h2: "t mod k + k - 1 = t mod k - 1 + 1 * k" by simp
    have "(t mod k + k - 1) div k = (t mod k - 1 + 1 * k) div k"
      by (rule arg_cong [where f = "\<lambda>x. x div k", OF h2])
    also have "\<dots> = (t mod k - 1) div k + 1"
      using assms div_mult_self1 [of k "t mod k - 1" 1] by simp
    also have "\<dots> = 1" using r by (simp add: div_pos_pos_trivial)
    finally have "(t mod k + k - 1) div k = 1" .
    with False e c assms show ?thesis
      by (simp add: zdiv_zminus1_eq_if)
  qed
qed

lemma window_per_page:
  "window a (normalize_per_page k) rows = take (nat (normalize_per_page k)) (drop (nat a) rows)"
  by (simp add: window_def normalize_per_page_def)

lemma set_window: "set (window a b xs) \<subseteq> set xs"
  by (auto simp: window_def dest: in_set_takeD in_set_dropD)

lemma list_page_ok:
  assumes "fst (list_page model p k incl filters s) = Inr resp"
  shows "page resp = normalize_page p \<and> per_page resp = normalize_per_page k
    \<and> total resp = int (length (filter (row_matches (build_select_stmt model incl filters)) (table s)))
    \<and> data resp = take (nat (per_page resp)) (drop (nat ((page resp - 1) * per_page resp))
         (filter (row_matches (build_select_stmt model incl filters)) (table s)))
    \<and> pages resp = (total resp + per_page resp - 1) div per_page resp"
  using assms
  by (auto simp: list_page_def with_session_def try_read_def bind_db_def db_exec_count_def
      db_exec_window_def window_per_page return_db_def storage_call_alt advance_def Let_def
      split: prod.splits sum.splits option.splits)

lemma list_page_returns:
  assumes "\<forall>f \<in> set (take 2 (faults s)). f = None"
  shows "\<exists>resp. fst (list_page model p k incl filters s) = Inr resp"
proof (cases "faults s")
  case Nil
  then show ?thesis
    by (simp add: list_page_def with_session_def try_read_def bind_db_def db_exec_count_def
      db_exec_window_def window_per_page return_db_def storage_call_def Let_def)
next
  case (Cons a fs)
  with assms have a: "a = None" by simp
  show ?thesis
  proof (cases fs)
    case Nil
    with Cons a show ?thesis
      by (simp add: list_page_def with_session_def try_read_def bind_db_def db_exec_count_def
        db_exec_window_def window_per_page return_db_def storage_call_def Let_def)
  next
    case (Cons b gs)
    with \<open>faults s = a # fs\<close> assms have "b = None" by simp
    with Cons a \<open>faults s = a # fs\<close> show ?thesis
      by (simp add: list_page_def with_session_def try_read_def bind_db_def db_exec_count_def
        db_exec_window_def window_per_page return_db_def storage_call_def Let_def)
  qed
qed

lemma normalize_per_page_range: "1 \<le> normalize_per_page k \<and> normalize_per_page k \<le> 100"
  by (simp add: normalize_per_page_def)

text \<open>
  Claim C2. \<^verbatim>\<open>list\<close> normalizes a page below 1 to 1 and a page size outside 1..100 to
  10; it returns whenever its two storage calls do not fail; and what it returns carries at
  most \<open>per_page\<close> records, \<open>pages\<close> equal to the ceiling of \<open>total / per_page\<close>, and the
  window of the matching rows that starts at offset \<open>(page - 1) * per_page\<close>.
\<close>

theorem list_pagination:
  "(p < 1 \<longrightarrow> normalize_page p = 1) \<and> (1 \<le> p \<longrightarrow> normalize_page p = p)
   \<and> (k < 1 \<or> 100 < k \<longrightarrow> normalize_per_page k = 10)
   \<and> (1 \<le> k \<and> k \<le> 100 \<longrightarrow> normalize_per_page k = k)
   \<and> ((\<forall>f \<in> set (take 2 (faults s)). f = None) \<longrightarrow>
        (\<exists>resp. fst (list_page model p k incl filters s) = Inr resp))
   \<and> (\<forall>resp. fst (list_page model p k incl filters s) = Inr resp \<longrightarrow>
        page resp = normalize_page p \<and> per_page resp = normalize_per_page k
        \<and> int (length (data resp)) \<le> per_page resp
        \<and> total resp = int (length (filter (row_matches (build_select_stmt model incl filters)) (table s)))
        \<and> pages resp = \<lceil>real_of_int (total resp) / real_of_int (per_page resp)\<rceil>
        \<and> data resp = take (nat (per_page resp)) (drop (nat ((page resp - 1) * per_page resp))
             (filter (row_matches (build_select_stmt model incl filters)) (table s))))"
proof -
  have n: "(p < 1 \<longrightarrow> normalize_page p = 1) \<and> (1 \<le> p \<longrightarrow> normalize_page p = p)
   \<and> (k < 1 \<or> 100 < k \<longrightarrow> normalize_per_page k = 10)
   \<and> (1 \<le> k \<and> k \<le> 100 \<longrightarrow> normalize_per_page k = k)"
    by (simp add: normalize_page_def normalize_per_page_def)
  have r: "(\<forall>f \<in> set (take 2 (faults s)). f = None) \<longrightarrow>
        (\<exists>resp. fst (list_page model p k incl filters s) = Inr resp)"
    using list_page_returns by blast
  have d: "page resp = normalize_page p \<and> per_page resp = normalize_per_page k
        \<and> int (length (data resp)) \<le> per_page resp
        \<and> total resp = int (length (filter (row_matches (build_select_stmt model incl filters)) (table s)))
        \<and> pages resp = \<lceil>real_of_int (total resp) / real_of_int (per_page resp)\<rceil>
        \<and> data resp = take (nat (per_page resp)) (drop (nat ((page resp - 1) * per_page resp))
             (filter (row_matches (build_select_stmt model incl filters)) (table s)))"
    if h: "fst (list_page model p k incl filters s) = Inr resp" for resp
  proof -
    note ok = list_page_ok [OF h]
    have pos: "0 < per_page resp"
      using ok normalize_per_page_range [of k] by simp
    have len: "int (length (data resp)) \<le> per_page resp"
    proof -
      have "length (data resp) \<le> nat (per_page resp)"
        using ok by simp
      with pos show ?thesis by linarith
    qed
    have "pages resp = \<lceil>real_of_int (total resp) / real_of_int (per_page resp)\<rceil>"
      using ok ceil_div [OF pos, of "total resp"] by simp
    with ok len show ?thesis by simp
  qed
  from n r d show ?thesis by blast
qed

lemma list_page_example:
  "fst (list_page post_model 0 101 False [] three_posts) =
     Inr \<lparr>success = True, data = [post_row 1 ''a'' False, post_row 3 ''c'' False], total = 2,
          page = 1, per_page = 10, pages = 1, message = ''Items retrieved successfully''\<rparr>"
  by (simp add: list_page_def with_session_def try_read_def bind_db_def db_exec_count_def
        db_exec_window_def window_def return_db_def storage_call_def Let_def three_posts_def post_model_def
        post_row_def normalize_page_def normalize_per_page_def build_select_stmt_def hasattr_def members_def member_value_def
        row_matches_def)

theorem list_pagination_witness:
  "(0::int) < 1 \<and> normalize_page 0 = 1 \<and> (100::int) < 101 \<and> normalize_per_page 101 = 10
   \<and> take 2 (faults three_posts) = []
   \<and> (\<exists>resp. fst (list_page post_model 0 101 False [] three_posts) = Inr resp
        \<and> page resp = 1 \<and> per_page resp = 10 \<and> length (data resp) = 2 \<and> total resp = 2
        \<and> pages resp = \<lceil>real_of_int 2 / real_of_int 10\<rceil>)"
  using list_pagination [of 0 101 three_posts post_model False "[]"] list_page_example
  by (auto simp: three_posts_def)

lemma no_faults_call:
  "no_faults (Suc n) s \<Longrightarrow> storage_call ev s = (Inr (), advance ev s)"
  by (cases s) (auto simp: storage_call_def no_faults_def advance_def split: list.splits option.splits)

lemma no_faults_advance:
  "no_faults (Suc n) s \<Longrightarrow> no_faults n (advance ev s)"
  by (cases "faults s") (auto simp: no_faults_def advance_def take_Suc split: list.splits)

lemma no_faults_mono:
  "no_faults n s \<Longrightarrow> m \<le> n \<Longrightarrow> no_faults m s"
proof -
  assume a: "no_faults n s" and le: "m \<le> n"
  from le have "take m (faults s) = take m (take n (faults s))" by (simp add: min_def)
  moreover have "list_all (\<lambda>f. f = None) (take m (take n (faults s)))"
    using a unfolding no_faults_def list_all_iff by (blast dest: in_set_takeD)
  ultimately show ?thesis by (simp only: no_faults_def)
qed

lemma no_faults_advance2:
  "no_faults (n + 2) s \<Longrightarrow> no_faults n (advance e2 (advance e1 s))"
proof -
  assume "no_faults (n + 2) s"
  then have "no_faults (Suc (Suc n)) s" by simp
  then have "no_faults (Suc n) (advance e1 s)" by (rule no_faults_advance)
  then show ?thesis by (rule no_faults_advance)
qed

lemma no_faults_update [simp]:
  "no_faults n (s\<lparr>pending := p\<rparr>) = no_faults n s"
  "no_faults n (s\<lparr>table := t\<rparr>) = no_faults n s"
  "no_faults n (s\<lparr>log := l\<rparr>) = no_faults n s"
  by (simp_all add: no_faults_def)

lemma advance_fields [simp]:
  "table (advance ev s) = table s"
  "pending (advance ev s) = pending s"
  "log (advance ev s) = log s @ [ev]"
  "faults (advance ev s) = tl (faults s)"
  by (simp_all add: advance_def)

lemma advance_update [simp]:
  "advance ev (s\<lparr>pending := p\<rparr>) = (advance ev s)\<lparr>pending := p\<rparr>"
  "advance ev (s\<lparr>table := t\<rparr>) = (advance ev s)\<lparr>table := t\<rparr>"
  by (simp_all add: advance_def)

text \<open>
  Claim C5. When nothing is left of the change-set once the identifier key is removed,
  \<^verbatim>\<open>update\<close> raises \<^verbatim>\<open>RepositoryError("No data provided for update")\<close> and the storage is
  exactly as before: no session was opened, the log has no new event, no row was read or
  written.
\<close>

theorem update_empty_change_set:
  "filter (\<lambda>(k, v). k \<noteq> ''id'') (model_dump exclude_unset obj) = [] \<Longrightarrow>
     update model item_id obj exclude_unset s =
       (Inl (RepositoryError ''No data provided for update'' None), s)"
  by (simp add: update_def)

theorem update_empty_change_set_witness:
  "filter (\<lambda>(k, v). k \<noteq> ''id'') (model_dump True (Dict [(''id'', VInt 5)])) = []
   \<and> update post_model (VInt 1) (Dict [(''id'', VInt 5)]) True three_posts =
       (Inl (RepositoryError ''No data provided for update'' None), three_posts)
   \<and> log three_posts = []"
  using update_empty_change_set [of True "Dict [(''id'', VInt 5)]" post_model "VInt 1" three_posts]
  by (simp add: three_posts_def)

lemma db_get_ok:
  "no_faults (Suc n) s \<Longrightarrow> db_get i s = (Inr (find (has_id i) (pending s)), advance Get s)"
  by (simp add: db_get_def bind_db_def no_faults_call)

lemma db_commit_ok:
  "no_faults (Suc n) s \<Longrightarrow> db_commit s = (Inr (), (advance Commit s)\<lparr>table := pending s\<rparr>)"
  by (simp add: db_commit_def bind_db_def no_faults_call)

lemma not_found:
  assumes nf: "find (has_id item_id) (table s) = None" and ok: "no_faults 1 s"
  shows "filter (\<lambda>(k, v). k \<noteq> ''id'') (model_dump eu obj) \<noteq> [] \<Longrightarrow>
           fst (update model item_id obj eu s) = Inr None
           \<and> table (snd (update model item_id obj eu s)) = table s"
    and "hasattr model ''is_deleted'' \<Longrightarrow>
           fst (soft_delete model item_id s) = Inr False
           \<and> table (snd (soft_delete model item_id s)) = table s"
    and "hasattr model ''is_deleted'' \<Longrightarrow>
           fst (restore model item_id s) = Inr False
           \<and> table (snd (restore model item_id s)) = table s"
    and "fst (force_delete model item_id s) = Inr False
           \<and> table (snd (force_delete model item_id s)) = table s"
proof -
  let ?s0 = "s\<lparr>pending := table s, log := log s @ [Acquire]\<rparr>"
  have ok0: "no_faults (Suc 0) ?s0" using ok by simp
  have g: "db_get item_id ?s0 = (Inr None, advance Get ?s0)"
    using db_get_ok [OF ok0, of item_id] nf by simp
  show "filter (\<lambda>(k, v). k \<noteq> ''id'') (model_dump eu obj) \<noteq> [] \<Longrightarrow>
           fst (update model item_id obj eu s) = Inr None
           \<and> table (snd (update model item_id obj eu s)) = table s"
    using g by (simp add: update_def reraise_def with_session_def try_write_def bind_db_def return_db_def
        Let_def)
  show "hasattr model ''is_deleted'' \<Longrightarrow>
           fst (soft_delete model item_id s) = Inr False
           \<and> table (snd (soft_delete model item_id s)) = table s"
    using g by (simp add: soft_delete_def with_session_def try_write_def bind_db_def return_db_def)
  show "hasattr model ''is_deleted'' \<Longrightarrow>
           fst (restore model item_id s) = Inr False
           \<and> table (snd (restore model item_id s)) = table s"
    using g by (simp add: restore_def with_session_def try_write_def bind_db_def return_db_def)
  show "fst (force_delete model item_id s) = Inr False
           \<and> table (snd (force_delete model item_id s)) = table s"
    using g by (simp add: force_delete_def with_session_def try_write_def bind_db_def return_db_def)
qed


text \<open>
  Claim C6, as amended. For an identifier that no stored record has, and when the lookup
  itself does not fail: \<^verbatim>\<open>update\<close> with a non-empty effective change-set returns
  \<^verbatim>\<open>None\<close>; \<^verbatim>\<open>soft_delete\<close> and \<^verbatim>\<open>restore\<close> on an entity that declares \<^verbatim>\<open>is_deleted\<close> return
  \<^verbatim>\<open>False\<close>; \<^verbatim>\<open>force_delete\<close> returns \<^verbatim>\<open>False\<close>; none of them changes the table.
\<close>

theorem not_found_results:
  assumes "find (has_id item_id) (table s) = None" and "no_faults 1 s"
  shows "(filter (\<lambda>(k, v). k \<noteq> ''id'') (model_dump eu obj) \<noteq> [] \<longrightarrow>
            fst (update model item_id obj eu s) = Inr None
            \<and> table (snd (update model item_id obj eu s)) = table s)
       \<and> (hasattr model ''is_deleted'' \<longrightarrow>
            fst (soft_delete model item_id s) = Inr False
            \<and> table (snd (soft_delete model item_id s)) = table s
            \<and> fst (restore model item_id s) = Inr False
            \<and> table (snd (restore model item_id s)) = table s)
       \<and> fst (force_delete model item_id s) = Inr False
       \<and> table (snd (force_delete model item_id s)) = table s"
  using not_found [OF assms] by blast

theorem not_found_results_witness:
  "find (has_id (VInt 99)) (table three_posts) = None \<and> no_faults 1 three_posts
   \<and> hasattr post_model ''is_deleted''
   \<and> fst (update post_model (VInt 99) (Dict [(''title'', VStr ''x'')]) True three_posts) = Inr None
   \<and> fst (soft_delete post_model (VInt 99) three_posts) = Inr False
   \<and> fst (restore post_model (VInt 99) three_posts) = Inr False
   \<and> fst (force_delete post_model (VInt 99) three_posts) = Inr False"
proof -
  have a: "find (has_id (VInt 99)) (table three_posts) = None"
    by (simp add: three_posts_def post_row_def has_id_def)
  have b: "no_faults 1 three_posts"
    by (simp add: three_posts_def no_faults_def)
  have c: "hasattr post_model ''is_deleted''"
    by (simp add: hasattr_def members_def member_value_def post_model_def)
  have d: "filter (\<lambda>(k, v). k \<noteq> ''id'') (model_dump True (Dict [(''title'', VStr ''x'')])) \<noteq> []"
    by simp
  from not_found_results [OF a b, of True "Dict [(''title'', VStr ''x'')]" post_model] a b c d
  show ?thesis by blast
qed

text \<open>
  Claim C6 as stated fails: on an identifier that matches no record, \<^verbatim>\<open>update\<close> with an
  empty change-set raises \<^verbatim>\<open>RepositoryError\<close>, and \<^verbatim>\<open>soft_delete\<close> on an entity without
  \<^verbatim>\<open>is_deleted\<close> raises \<^verbatim>\<open>AttributeError\<close>; both guards run before the lookup.
\<close>

theorem not_found_counterexample:
  "find (has_id (VInt 99)) (table three_posts) = None
   \<and> fst (update post_model (VInt 99) (Dict []) True three_posts)
       = Inl (RepositoryError ''No data provided for update'' None)
   \<and> fst (soft_delete tag_model (VInt 99) three_posts)
       = Inl (AttributeError ''Model must have 'is_deleted' field for soft delete'')"
  by (simp add: three_posts_def post_row_def has_id_def update_def soft_delete_def hasattr_def members_def member_value_def
      tag_model_def)

lemma find_Some_holds:
  "find P xs = Some x \<Longrightarrow> P x \<and> x \<in> set xs"
  by (induction xs) (auto split: if_splits)

lemma find_update_first:
  "find P xs = Some r \<Longrightarrow> P (f r) \<Longrightarrow> find P (update_first P f xs) = Some (f r)"
  by (induction xs) (auto split: if_splits)

lemma update_first_same:
  "find P xs = Some r \<Longrightarrow> f r = r \<Longrightarrow> update_first P f xs = xs"
  by (induction xs) (auto split: if_splits)

lemma has_id_update [simp]:
  "key \<noteq> ''id'' \<Longrightarrow> has_id i (AList.update key v r) = has_id i r"
  by (simp add: has_id_def update_conv')

lemma restore_found:
  assumes "hasattr model ''is_deleted''" and "find (has_id item_id) (table s) = Some r"
    and "no_faults 2 s"
  shows "restore model item_id s =
     (Inr True,
      (advance Commit (advance Get (s\<lparr>pending := table s, log := log s @ [Acquire]\<rparr>)))
        \<lparr>pending := update_first (has_id item_id) (AList.update ''is_deleted'' (VBool False)) (table s),
         table := update_first (has_id item_id) (AList.update ''is_deleted'' (VBool False)) (table s),
         log := log s @ [Acquire, Get, Commit, Release]\<rparr>)"
proof -
  let ?s0 = "s\<lparr>pending := table s, log := log s @ [Acquire]\<rparr>"
  have ok0: "no_faults (Suc (Suc 0)) ?s0" using assms(3) by (simp add: numeral_2_eq_2)
  have g: "db_get item_id ?s0 = (Inr (Some r), advance Get ?s0)"
    using db_get_ok [OF ok0, of item_id] assms(2) by simp
  have ok1: "no_faults (Suc 0) (advance Get ?s0)"
    by (rule no_faults_advance [OF ok0])
  let ?s1 = "setattr item_id ''is_deleted'' (VBool False) (advance Get ?s0)"
  have ok2: "no_faults (Suc 0) ?s1" using ok1 by (simp add: setattr_def)
  note c = db_commit_ok [OF ok2]
  show ?thesis
    using assms(1) g c
    by (simp add: restore_def with_session_def try_write_def bind_db_def return_db_def setattr_def)
qed

lemma restore_already_restored:
  assumes "hasattr model ''is_deleted''" and "find (has_id item_id) (table s) = Some r"
    and "no_faults 2 s" and "map_of r ''is_deleted'' = Some (VBool False)"
  shows "fst (restore model item_id s) = Inr True"
    and "table (snd (restore model item_id s)) = table s"
proof -
  let ?f = "AList.update ''is_deleted'' (VBool False)"
  have same: "?f r = r"
    using assms(4) by (simp add: update_triv)
  note rf = restore_found [OF assms(1,2,3)]
  show "fst (restore model item_id s) = Inr True" by (simp add: rf)
  have "update_first (has_id item_id) ?f (table s) = table s"
    by (rule update_first_same [where f = ?f, OF assms(2) same])
  then show "table (snd (restore model item_id s)) = table s" by (simp add: rf)
qed

lemma restore_state1:
  assumes "hasattr model ''is_deleted''" and "find (has_id item_id) (table s) = Some r"
    and "no_faults 4 s"
  shows "find (has_id item_id) (table (snd (restore model item_id s)))
           = Some (AList.update ''is_deleted'' (VBool False) r)"
proof -
  have "(2::nat) \<le> 4" by simp
  from no_faults_mono [OF assms(3) this] have h2: "no_faults 2 s" .
  let ?f = "AList.update ''is_deleted'' (VBool False)"
  note rf = restore_found [OF assms(1,2) h2]
  have t1: "table (snd (restore model item_id s)) = update_first (has_id item_id) ?f (table s)"
    by (simp add: rf)
  have hid: "has_id item_id (?f r)"
    using find_Some_holds [OF assms(2)] by simp
  have "find (has_id item_id) (update_first (has_id item_id) ?f (table s)) = Some (?f r)"
    by (rule find_update_first [where f = ?f, OF assms(2) hid])
  then show ?thesis by (simp only: t1)
qed

lemma restore_state2:
  assumes "hasattr model ''is_deleted''" and "find (has_id item_id) (table s) = Some r"
    and "no_faults 4 s"
  shows "no_faults 2 (snd (restore model item_id s))"
proof -
  have "(2::nat) \<le> 4" by simp
  from no_faults_mono [OF assms(3) this] have h2: "no_faults 2 s" .
  note rf = restore_found [OF assms(1,2) h2]
  have "no_faults (2 + 2) (s\<lparr>pending := table s, log := log s @ [Acquire]\<rparr>)"
    using assms(3) by simp
  then have "no_faults 2 (advance Commit (advance Get (s\<lparr>pending := table s, log := log s @ [Acquire]\<rparr>)))"
    by (rule no_faults_advance2)
  then show "no_faults 2 (snd (restore model item_id s))"
    by (simp add: rf)
qed

text \<open>
  Claim C9. On an existing record of an entity that declares \<^verbatim>\<open>is_deleted\<close>, and when the
  storage calls do not fail: \<^verbatim>\<open>restore\<close> of a record whose flag is already false returns
  \<^verbatim>\<open>True\<close> and leaves the table as it was; and a second \<^verbatim>\<open>restore\<close> after a first one
  returns \<^verbatim>\<open>True\<close> and changes nothing more.
\<close>

theorem restore_idempotent:
  assumes "hasattr model ''is_deleted''" and "find (has_id item_id) (table s) = Some r"
  shows "(no_faults 2 s \<and> map_of r ''is_deleted'' = Some (VBool False) \<longrightarrow>
            fst (restore model item_id s) = Inr True
            \<and> table (snd (restore model item_id s)) = table s)
       \<and> (no_faults 4 s \<longrightarrow>
            fst (restore model item_id (snd (restore model item_id s))) = Inr True
            \<and> table (snd (restore model item_id (snd (restore model item_id s))))
                = table (snd (restore model item_id s)))"
proof (intro conjI impI)
  assume h: "no_faults 2 s \<and> map_of r ''is_deleted'' = Some (VBool False)"
  then have a: "no_faults 2 s" and b: "map_of r ''is_deleted'' = Some (VBool False)" by simp_all
  show "fst (restore model item_id s) = Inr True"
    by (rule restore_already_restored(1) [OF assms a b])
  show "table (snd (restore model item_id s)) = table s"
    by (rule restore_already_restored(2) [OF assms a b])
next
  assume h: "no_faults 4 s"
  let ?f = "AList.update ''is_deleted'' (VBool False)"
  note st1 = restore_state1 [OF assms h]
  note st2 = restore_state2 [OF assms h]
  have flag: "map_of (?f r) ''is_deleted'' = Some (VBool False)"
    by (simp add: update_conv')
  show "fst (restore model item_id (snd (restore model item_id s))) = Inr True"
    by (rule restore_already_restored(1) [OF assms(1) st1 st2 flag])
  show "table (snd (restore model item_id (snd (restore model item_id s))))
          = table (snd (restore model item_id s))"
    by (rule restore_already_restored(2) [OF assms(1) st1 st2 flag])
qed

theorem restore_idempotent_witness:
  "hasattr post_model ''is_deleted''
   \<and> find (has_id (VInt 1)) (table three_posts) = Some (post_row 1 ''a'' False)
   \<and> no_faults 4 three_posts
   \<and> map_of (post_row 1 ''a'' False) ''is_deleted'' = Some (VBool False)
   \<and> fst (restore post_model (VInt 1) three_posts) = Inr True
   \<and> table (snd (restore post_model (VInt 1) three_posts)) = table three_posts"
proof -
  have a: "hasattr post_model ''is_deleted''"
    by (simp add: hasattr_def members_def member_value_def post_model_def)
  have b: "find (has_id (VInt 1)) (table three_posts) = Some (post_row 1 ''a'' False)"
    by (simp add: three_posts_def post_row_def has_id_def)
  have c: "no_faults 4 three_posts" and c2: "no_faults 2 three_posts"
    by (simp_all add: three_posts_def no_faults_def)
  have d: "map_of (post_row 1 ''a'' False) ''is_deleted'' = Some (VBool False)"
    by (simp add: post_row_def)
  note t = restore_idempotent [OF a b]
  have e: "fst (restore post_model (VInt 1) three_posts) = Inr True
     \<and> table (snd (restore post_model (VInt 1) three_posts)) = table three_posts"
    by (rule mp [OF conjunct1 [OF t]]) (rule conjI [OF c2 d])
  show ?thesis
    by (intro conjI a b c d conjunct1 [OF e] conjunct2 [OF e])
qed

lemma filter_declared_without:
  "\<not> hasattr model k \<Longrightarrow>
     filter (\<lambda>(field, v). hasattr model field) (without_key k fs)
       = filter (\<lambda>(field, v). hasattr model field) fs"
  by (induction fs) (auto simp: without_key_def)

lemma build_select_stmt_without:
  "\<not> hasattr model k \<Longrightarrow>
     build_select_stmt model incl (without_key k fs) = build_select_stmt model incl fs"
  by (simp add: build_select_stmt_def filter_declared_without)

lemma without_key_commute:
  "without_key a (without_key b fs) = without_key b (without_key a fs)"
  by (induction fs) (auto simp: without_key_def)

lemma map_of_without_key:
  "a \<noteq> k \<Longrightarrow> map_of (without_key k fs) a = map_of fs a"
  by (induction fs) (auto simp: without_key_def)

lemma get_one_without:
  assumes "\<not> hasattr model k" and "k \<noteq> ''include_deleted''"
  shows "get_one model (without_key k fs) = get_one model fs"
proof -
  have m: "map_of (without_key k fs) ''include_deleted'' = map_of fs ''include_deleted''"
    using assms(2) by (simp add: map_of_without_key)
  have "filter (\<lambda>(f, v). f \<noteq> ''include_deleted'') (without_key k fs)
      = without_key k (filter (\<lambda>(f, v). f \<noteq> ''include_deleted'') fs)"
    using without_key_commute [of "''include_deleted''" k fs] by (simp add: without_key_def)
  then show ?thesis
    unfolding get_one_def m by (simp only: build_select_stmt_without [OF assms(1)])
qed

lemma apply_update_without:
  "\<not> hasattr model k \<Longrightarrow> apply_update model i (without_key k d) s = apply_update model i d s"
  by (induction d arbitrary: s) (auto simp: without_key_def split: sum.splits)

lemma apply_update_undeclared:
  "list_all (\<lambda>(f, v). \<not> hasattr model f) d \<Longrightarrow> apply_update model i d s = Inr s"
  by (induction d arbitrary: s) auto

lemma update_noop_table:
  assumes "\<And>s'. apply_update model i (filter (\<lambda>(k, v). k \<noteq> ''id'') (model_dump eu obj)) s' = Inr s'"
  shows "table (snd (update model i obj eu s)) = table s"
  using assms
  by (simp add: update_def reraise_def with_session_def try_write_def bind_db_def db_get_def
      db_commit_def db_refresh_def return_db_def storage_call_alt db_rollback_def Let_def
      split: option.splits sum.splits prod.splits)

lemma filter_id_without:
  "filter (\<lambda>(f, v). f \<noteq> ''id'') (without_key k d) = without_key k (filter (\<lambda>(f, v). f \<noteq> ''id'') d)"
  using without_key_commute [of "''id''" k d] by (simp add: without_key_def)

lemma update_without_same:
  assumes "\<not> hasattr model k"
    and "without_key k (filter (\<lambda>(f, v). f \<noteq> ''id'') d) \<noteq> []"
  shows "update model i (Dict (without_key k d)) eu s = update model i (Dict d) eu s"
proof -
  let ?ud = "filter (\<lambda>(f, v). f \<noteq> ''id'') d"
  have ne: "?ud \<noteq> []"
  proof
    assume e: "?ud = []"
    have "without_key k [] = []" by (simp add: without_key_def)
    with e assms(2) show False by (simp only:) simp
  qed
  have a: "apply_update model i (without_key k ?ud) = apply_update model i ?ud"
    by (rule ext) (rule apply_update_without [OF assms(1)])
  show ?thesis
    using ne assms(2) by (simp add: update_def filter_id_without a)
qed

lemma update_without_table:
  assumes "\<not> hasattr model k"
  shows "table (snd (update model i (Dict (without_key k d)) eu s))
           = table (snd (update model i (Dict d) eu s))"
proof (cases "without_key k (filter (\<lambda>(f, v). f \<noteq> ''id'') d) = []")
  case False
  then show ?thesis by (simp only: update_without_same [OF assms False])
next
  case True
  let ?ud = "filter (\<lambda>(f, v). f \<noteq> ''id'') d"
  have l: "table (snd (update model i (Dict (without_key k d)) eu s)) = table s"
    using True by (simp add: update_def filter_id_without)
  have "apply_update model i ?ud s' = Inr s'" for s'
    using apply_update_without [OF assms, of i ?ud s'] True by simp
  then have "table (snd (update model i (Dict d) eu s)) = table s"
    by (intro update_noop_table) simp
  with l show ?thesis by simp
qed

lemma update_undeclared_table:
  assumes "list_all (\<lambda>(f, v). \<not> hasattr model f) d"
  shows "table (snd (update model i (Dict d) eu s)) = table s"
proof -
  have "list_all (\<lambda>(f, v). \<not> hasattr model f) (filter (\<lambda>(f, v). f \<noteq> ''id'') d)"
    using assms by (simp add: list_all_iff)
  then have "apply_update model i (filter (\<lambda>(f, v). f \<noteq> ''id'') d) s' = Inr s'" for s'
    by (rule apply_update_undeclared)
  then show ?thesis
    by (intro update_noop_table) simp
qed

lemma find_param_without:
  "k \<notin> set params \<Longrightarrow>
     find (\<lambda>k. k \<in> set params) (map fst (without_key k kw)) = find (\<lambda>k. k \<in> set params) (map fst kw)"
  by (induction kw) (auto simp: without_key_def)

lemma call_with_without:
  assumes "k \<notin> set params" and "body (without_key k kw) = body kw"
  shows "call_with params (without_key k kw) (body (without_key k kw)) = call_with params kw (body kw)"
  by (rule ext) (simp add: call_with_def find_param_without [OF assms(1)] assms(2))

lemma reads_without:
  assumes "\<not> hasattr model k"
  shows "get model i incl (without_key k fs) = get model i incl fs"
    and "get_many model skip limit incl (without_key k fs) = get_many model skip limit incl fs"
    and "list_page model p n incl (without_key k fs) = list_page model p n incl fs"
    and "count model incl (without_key k fs) = count model incl fs"
proof -
  note b = build_select_stmt_without [OF assms]
  show "get model i incl (without_key k fs) = get model i incl fs"
    by (simp only: get_def b)
  show "get_many model skip limit incl (without_key k fs) = get_many model skip limit incl fs"
    by (simp only: get_many_def b)
  show "list_page model p n incl (without_key k fs) = list_page model p n incl fs"
    by (simp only: list_page_def b)
  show "count model incl (without_key k fs) = count model incl fs"
    by (simp only: count_def b)
qed

text \<open>
  Claim C10, as amended. A keyword that names no attribute of the entity class at all
  (\<^verbatim>\<open>hasattr\<close> is false of it: it is neither a field nor any other member of the class) and
  no parameter of the operation changes nothing in \<^verbatim>\<open>get\<close>, \<^verbatim>\<open>get_one\<close>, \<^verbatim>\<open>get_many\<close>,
  \<^verbatim>\<open>list\<close> and \<^verbatim>\<open>count\<close>: the call behaves exactly as the call without that keyword, errors
  included. For \<^verbatim>\<open>get_one\<close> the name \<^verbatim>\<open>include_deleted\<close> counts as a parameter, since
  \<^verbatim>\<open>get_one\<close> forwards it as one. In \<^verbatim>\<open>update\<close>, a key of the field-map of which \<^verbatim>\<open>hasattr\<close>
  is false has no effect on the stored table; the whole call is the same without it as long
  as other keys remain, and a field-map of such keys only leaves the table as it was.
\<close>

theorem undeclared_keys_ignored:
  assumes "\<not> hasattr model k"
  shows "(k \<notin> set [''self'', ''item_id'', ''include_deleted''] \<longrightarrow>
            call_get model i incl (without_key k kw) = call_get model i incl kw)
       \<and> (k \<notin> set [''self'', ''include_deleted''] \<longrightarrow>
            call_get_one model (without_key k kw) = call_get_one model kw)
       \<and> (k \<notin> set [''self'', ''skip'', ''limit'', ''include_deleted''] \<longrightarrow>
            call_get_many model skip limit incl (without_key k kw)
              = call_get_many model skip limit incl kw)
       \<and> (k \<notin> set [''self'', ''page'', ''per_page'', ''include_deleted''] \<longrightarrow>
            call_list model p n incl (without_key k kw) = call_list model p n incl kw)
       \<and> (k \<notin> set [''self'', ''include_deleted''] \<longrightarrow>
            call_count model incl (without_key k kw) = call_count model incl kw)
       \<and> table (snd (update model i (Dict (without_key k d)) eu s))
           = table (snd (update model i (Dict d) eu s))
       \<and> (without_key k (filter (\<lambda>(f, v). f \<noteq> ''id'') d) \<noteq> [] \<longrightarrow>
            update model i (Dict (without_key k d)) eu s = update model i (Dict d) eu s)
       \<and> (list_all (\<lambda>(f, v). \<not> hasattr model f) d \<longrightarrow>
            table (snd (update model i (Dict d) eu s)) = table s)"
proof -
  note r = reads_without [OF assms]
  have 1: "k \<notin> set [''self'', ''item_id'', ''include_deleted''] \<longrightarrow>
            call_get model i incl (without_key k kw) = call_get model i incl kw"
  proof
    assume h: "k \<notin> set [''self'', ''item_id'', ''include_deleted'']"
    show "call_get model i incl (without_key k kw) = call_get model i incl kw"
      unfolding call_get_def
      by (rule call_with_without [where body = "get model i incl", OF h r(1)])
  qed
  have 2: "k \<notin> set [''self'', ''include_deleted''] \<longrightarrow>
            call_get_one model (without_key k kw) = call_get_one model kw"
  proof
    assume h: "k \<notin> set [''self'', ''include_deleted'']"
    then have a: "k \<notin> set [''self'']" and b: "k \<noteq> ''include_deleted''" by simp_all
    show "call_get_one model (without_key k kw) = call_get_one model kw"
      unfolding call_get_one_def
      by (rule call_with_without [where body = "get_one model", OF a get_one_without [OF assms b]])
  qed
  have 3: "k \<notin> set [''self'', ''skip'', ''limit'', ''include_deleted''] \<longrightarrow>
            call_get_many model skip limit incl (without_key k kw)
              = call_get_many model skip limit incl kw"
  proof
    assume h: "k \<notin> set [''self'', ''skip'', ''limit'', ''include_deleted'']"
    show "call_get_many model skip limit incl (without_key k kw)
              = call_get_many model skip limit incl kw"
      unfolding call_get_many_def
      by (rule call_with_without [where body = "get_many model skip limit incl", OF h r(2)])
  qed
  have 4: "k \<notin> set [''self'', ''page'', ''per_page'', ''include_deleted''] \<longrightarrow>
            call_list model p n incl (without_key k kw) = call_list model p n incl kw"
  proof
    assume h: "k \<notin> set [''self'', ''page'', ''per_page'', ''include_deleted'']"
    show "call_list model p n incl (without_key k kw) = call_list model p n incl kw"
      unfolding call_list_def
      by (rule call_with_without [where body = "list_page model p n incl", OF h r(3)])
  qed
  have 5: "k \<notin> set [''self'', ''include_deleted''] \<longrightarrow>
            call_count model incl (without_key k kw) = call_count model incl kw"
  proof
    assume h: "k \<notin> set [''self'', ''include_deleted'']"
    show "call_count model incl (without_key k kw) = call_count model incl kw"
      unfolding call_count_def
      by (rule call_with_without [where body = "count model incl", OF h r(4)])
  qed
  note 6 = update_without_table [OF assms, of i d eu s]
  have 7: "without_key k (filter (\<lambda>(f, v). f \<noteq> ''id'') d) \<noteq> [] \<longrightarrow>
            update model i (Dict (without_key k d)) eu s = update model i (Dict d) eu s"
    using update_without_same [OF assms] by (intro impI)
  have 8: "list_all (\<lambda>(f, v). \<not> hasattr model f) d \<longrightarrow>
            table (snd (update model i (Dict d) eu s)) = table s"
    using update_undeclared_table by (intro impI)
  show ?thesis
    by (rule conjI [OF 1 conjI [OF 2 conjI [OF 3 conjI [OF 4 conjI [OF 5 conjI [OF 6 conjI [OF 7 8]]]]]]])
qed

lemma get_example:
  "fst (call_get post_model (VInt 1) False [(''title'', VStr ''a'')] three_posts)
     = Inr (Some (post_row 1 ''a'' False))"
  by (simp add: call_get_def call_with_def get_def with_session_def try_read_def bind_db_def
      db_exec_def return_db_def storage_call_def build_select_stmt_def where_clause_def
      hasattr_def members_def member_value_def row_matches_def first_def three_posts_def post_model_def post_row_def)

theorem undeclared_keys_ignored_witness:
  "\<not> hasattr post_model ''bogus''
   \<and> ''bogus'' \<notin> set [''self'', ''item_id'', ''include_deleted'']
   \<and> fst (call_get post_model (VInt 1) False [(''bogus'', VInt 7), (''title'', VStr ''a'')] three_posts)
       = Inr (Some (post_row 1 ''a'' False))"
proof -
  have a: "\<not> hasattr post_model ''bogus''"
    by (simp add: hasattr_def members_def member_value_def post_model_def)
  have b: "''bogus'' \<notin> set [''self'', ''item_id'', ''include_deleted'']"
    by simp
  have w: "without_key ''bogus'' [(''bogus'', VInt 7), (''title'', VStr ''a'')] = [(''title'', VStr ''a'')]"
    by (simp add: without_key_def)
  note t = mp [OF conjunct1 [OF undeclared_keys_ignored [OF a, of "VInt 1" False
      "[(''bogus'', VInt 7), (''title'', VStr ''a'')]"]] b]
  have "fst (call_get post_model (VInt 1) False [(''bogus'', VInt 7), (''title'', VStr ''a'')] three_posts)
      = fst (call_get post_model (VInt 1) False [(''title'', VStr ''a'')] three_posts)"
    using t unfolding w by simp
  then have c: "fst (call_get post_model (VInt 1) False [(''bogus'', VInt 7), (''title'', VStr ''a'')] three_posts)
      = Inr (Some (post_row 1 ''a'' False))"
    by (simp only: get_example)
  show ?thesis by (rule conjI [OF a conjI [OF b c]])
qed

text \<open>
  Claim C10 as stated fails in three ways. \<^verbatim>\<open>include_deleted\<close> is no attribute of the entity,
  yet \<^verbatim>\<open>get_one(title=..., include_deleted=True)\<close> finds the soft-deleted record that the same
  call without that keyword does not find. \<^verbatim>\<open>metadata\<close> is no declared attribute either, but
  the class has it: \<^verbatim>\<open>get(1, metadata=7)\<close> filters on it and finds nothing where the call
  without it finds the record, and \<^verbatim>\<open>update\<close> with that key raises instead of skipping it.
  And the keyword \<^verbatim>\<open>self\<close> makes the call raise \<^verbatim>\<open>TypeError\<close>.
\<close>

theorem undeclared_keys_counterexample:
  "\<not> hasattr post_model ''include_deleted''
   \<and> fst (call_get_one post_model [(''title'', VStr ''b''), (''include_deleted'', VBool True)]
            three_posts)
       = Inr (Some (post_row 2 ''b'' True))
   \<and> fst (call_get_one post_model
            (without_key ''include_deleted'' [(''title'', VStr ''b''), (''include_deleted'', VBool True)])
            three_posts)
       = Inr None
   \<and> ''metadata'' \<notin> set (attributes post_model)
   \<and> fst (call_get post_model (VInt 1) False [(''metadata'', VInt 7)] three_posts) = Inr None
   \<and> fst (call_get post_model (VInt 1) False (without_key ''metadata'' [(''metadata'', VInt 7)])
            three_posts)
       = Inr (Some (post_row 1 ''a'' False))
   \<and> fst (update post_model (VInt 1) (Dict [(''metadata'', VInt 7), (''title'', VStr ''z'')]) True
            three_posts)
       = Inl (AttributeError ''metadata'')
   \<and> fst (update post_model (VInt 1)
            (Dict (without_key ''metadata'' [(''metadata'', VInt 7), (''title'', VStr ''z'')])) True
            three_posts)
       = Inr (Some (post_row 1 ''z'' False))
   \<and> \<not> hasattr post_model ''self''
   \<and> fst (call_get post_model (VInt 1) False [(''self'', VInt 7)] three_posts)
       = Inl (TypeError ''self'')"
  by (simp add: call_get_one_def call_get_def call_with_def get_one_def get_def update_def
      reraise_def instance_setattr_def setattr_def has_id_def
      db_get_def db_commit_def db_refresh_def try_write_def
      with_session_def try_read_def bind_db_def db_exec_def return_db_def
      storage_call_def build_select_stmt_def where_clause_def hasattr_def members_def member_value_def
      row_matches_def first_def three_posts_def post_model_def post_row_def without_key_def)

lemma next_fault_update [simp]:
  "next_fault (s\<lparr>pending := p\<rparr>) = next_fault s"
  "next_fault (s\<lparr>table := t\<rparr>) = next_fault s"
  "next_fault (s\<lparr>log := l\<rparr>) = next_fault s"
  by (simp_all add: next_fault_def)

lemma no_faults_next: "no_faults (Suc n) s \<Longrightarrow> next_fault s = None"
  by (cases "faults s") (simp_all add: no_faults_def next_fault_def)

lemma first_filter: "first (filter P xs) = find P xs"
  by (induction xs) (simp_all add: first_def)

lemma row_matches_append:
  "row_matches (a @ b) r = (row_matches a r \<and> row_matches b r)"
  by (simp add: row_matches_def)

lemma row_matches_filters:
  "row_matches (map (where_clause model) (filter (\<lambda>(field, v). hasattr model field) fs)) r
     = filters_hold model fs r"
  by (induction fs) (auto simp: row_matches_def filters_hold_def where_clause_def split: if_splits)

lemma row_matches_build:
  "row_matches (build_select_stmt model incl fs) r
     = ((incl \<or> \<not> hasattr model ''is_deleted'' \<or> map_of r ''is_deleted'' = Some (VBool False))
        \<and> filters_hold model fs r)"
  by (simp add: build_select_stmt_def row_matches_append row_matches_filters)
     (simp add: row_matches_def)

lemma row_matches_id:
  "row_matches (st @ [Eq ''id'' i]) r = (row_matches st r \<and> has_id i r)"
  by (simp add: row_matches_def has_id_def)

lemma get_result:
  "fst (get model i incl fs s) =
     (case next_fault s of
        Some e \<Rightarrow> Inl (handle_db_error e ''get'')
      | None \<Rightarrow> Inr (find (row_matches (build_select_stmt model incl fs @ [Eq ''id'' i])) (table s)))"
  by (simp add: get_def with_session_def try_read_def bind_db_def db_exec_def return_db_def
      storage_call_alt first_filter split: option.splits prod.splits)

lemma get_one_result:
  "fst (get_one model fs s) =
     (case next_fault s of
        Some e \<Rightarrow> Inl (handle_db_error e ''get_one'')
      | None \<Rightarrow> Inr (find (row_matches (build_select_stmt model
            (case map_of fs ''include_deleted'' of None \<Rightarrow> False | Some v \<Rightarrow> truthy v)
            (without_key ''include_deleted'' fs))) (table s)))"
  by (simp add: get_one_def with_session_def try_read_def bind_db_def db_exec_def return_db_def
      storage_call_alt first_filter without_key_def
      split: option.splits prod.splits)

lemma get_many_result:
  "fst (get_many model skip limit incl fs s) =
     (case next_fault s of
        Some e \<Rightarrow> Inl (handle_db_error e ''get_many'')
      | None \<Rightarrow> Inr (window skip limit
                 (filter (row_matches (build_select_stmt model incl fs)) (table s))))"
  by (simp add: get_many_def with_session_def try_read_def bind_db_def db_exec_window_def
      storage_call_alt split: option.splits prod.splits)

lemma count_result:
  "fst (count model incl fs s) =
     (case next_fault s of
        Some e \<Rightarrow> Inl (handle_db_error e ''count'')
      | None \<Rightarrow> Inr (int (length (filter (row_matches (build_select_stmt model incl fs)) (table s)))))"
  by (simp add: count_def with_session_def try_read_def bind_db_def db_exec_count_def
      storage_call_alt split: option.splits prod.splits)

lemma exists_result:
  "fst (exists model i incl s) =
     (case next_fault s of
        Some e \<Rightarrow> Inl (handle_db_error e ''exists'')
      | None \<Rightarrow> Inr (case find (row_matches ([Eq ''id'' i]
                            @ (if \<not> incl \<and> hasattr model ''is_deleted''
                               then [Eq ''is_deleted'' (VBool False)] else []))) (table s) of
                      None \<Rightarrow> False
                    | Some r \<Rightarrow> map_of r ''id'' \<noteq> Some VNone))"
  by (simp add: exists_def with_session_def try_read_def bind_db_def db_exec_def return_db_def
      storage_call_alt first_filter split: option.splits prod.splits)

lemma live_not_soft_deleted:
  "map_of r ''is_deleted'' = Some (VBool False) \<Longrightarrow> \<not> soft_deleted r"
  by (simp add: soft_deleted_def)

lemma build_excludes:
  assumes "hasattr model ''is_deleted''"
    and "row_matches (build_select_stmt model False fs) r"
  shows "\<not> soft_deleted r"
  using assms by (simp add: row_matches_build live_not_soft_deleted)

lemma build_includes:
  "row_matches (build_select_stmt model True fs) = filters_hold model fs"
  by (rule ext) (simp add: row_matches_build)

lemma get_excludes:
  assumes "hasattr model ''is_deleted''" and "fst (get model i False fs s) = Inr (Some r)"
  shows "\<not> soft_deleted r"
proof -
  from assms(2) have "find (row_matches (build_select_stmt model False fs @ [Eq ''id'' i])) (table s) = Some r"
    by (simp add: get_result split: option.splits)
  then have "row_matches (build_select_stmt model False fs @ [Eq ''id'' i]) r"
    by (rule find_Some_holds [THEN conjunct1])
  then have "row_matches (build_select_stmt model False fs) r"
    by (simp add: row_matches_id)
  with assms(1) show ?thesis by (rule build_excludes)
qed

lemma get_one_excludes:
  assumes "hasattr model ''is_deleted''"
    and "case map_of fs ''include_deleted'' of None \<Rightarrow> True | Some v \<Rightarrow> \<not> truthy v"
    and "fst (get_one model fs s) = Inr (Some r)"
  shows "\<not> soft_deleted r"
proof -
  from assms(2)
  have "(case map_of fs ''include_deleted'' of None \<Rightarrow> False | Some v \<Rightarrow> truthy v) = False"
    by (simp split: option.splits)
  with assms(3)
  have "find (row_matches (build_select_stmt model False (without_key ''include_deleted'' fs)))
          (table s) = Some r"
    by (simp add: get_one_result split: option.splits)
  then have "row_matches (build_select_stmt model False (without_key ''include_deleted'' fs)) r"
    by (rule find_Some_holds [THEN conjunct1])
  with assms(1) show ?thesis by (rule build_excludes)
qed

lemma get_many_excludes:
  assumes "hasattr model ''is_deleted''"
    and "fst (get_many model skip limit False fs s) = Inr rs"
  shows "list_all (\<lambda>r. \<not> soft_deleted r) rs"
proof -
  from assms(2)
  have rs: "rs = window skip limit
              (filter (row_matches (build_select_stmt model False fs)) (table s))"
    by (simp add: get_many_result split: option.splits)
  have "r \<in> set rs \<Longrightarrow> \<not> soft_deleted r" for r
  proof -
    assume "r \<in> set rs"
    then have "r \<in> set (filter (row_matches (build_select_stmt model False fs)) (table s))"
      unfolding rs using set_window by (rule rev_subsetD)
    then have "row_matches (build_select_stmt model False fs) r" by simp
    with assms(1) show ?thesis by (rule build_excludes)
  qed
  then show ?thesis by (simp add: list_all_iff)
qed

lemma list_page_excludes:
  assumes "hasattr model ''is_deleted''"
    and "fst (list_page model p k False fs s) = Inr resp"
  shows "list_all (\<lambda>r. \<not> soft_deleted r) (data resp)"
    and "total resp = int (length (filter
           (\<lambda>r. map_of r ''is_deleted'' = Some (VBool False) \<and> filters_hold model fs r) (table s)))"
proof -
  note ok = list_page_ok [OF assms(2)]
  have "r \<in> set (data resp) \<Longrightarrow> \<not> soft_deleted r" for r
  proof -
    assume "r \<in> set (data resp)"
    then have "r \<in> set (take (nat (per_page resp)) (drop (nat ((page resp - 1) * per_page resp))
         (filter (row_matches (build_select_stmt model False fs)) (table s))))"
      using ok by simp
    then have "r \<in> set (filter (row_matches (build_select_stmt model False fs)) (table s))"
      by (meson in_set_takeD in_set_dropD)
    then have "row_matches (build_select_stmt model False fs) r" by simp
    with assms(1) show ?thesis by (rule build_excludes)
  qed
  then show "list_all (\<lambda>r. \<not> soft_deleted r) (data resp)" by (simp add: list_all_iff)
  have "row_matches (build_select_stmt model False fs)
      = (\<lambda>r. map_of r ''is_deleted'' = Some (VBool False) \<and> filters_hold model fs r)"
    using assms(1) by (intro ext) (simp add: row_matches_build)
  with ok show "total resp = int (length (filter
           (\<lambda>r. map_of r ''is_deleted'' = Some (VBool False) \<and> filters_hold model fs r) (table s)))"
    by simp
qed

lemma count_excludes:
  assumes "hasattr model ''is_deleted''" and "fst (count model False fs s) = Inr n"
  shows "n = int (length (filter
           (\<lambda>r. map_of r ''is_deleted'' = Some (VBool False) \<and> filters_hold model fs r) (table s)))"
proof -
  have "row_matches (build_select_stmt model False fs)
      = (\<lambda>r. map_of r ''is_deleted'' = Some (VBool False) \<and> filters_hold model fs r)"
    using assms(1) by (intro ext) (simp add: row_matches_build)
  with assms(2) show ?thesis
    by (simp add: count_result split: option.splits)
qed

lemma exists_excludes:
  assumes "hasattr model ''is_deleted''" and "fst (exists model i False s) = Inr True"
  shows "list_ex (\<lambda>r. has_id i r \<and> \<not> soft_deleted r) (table s)"
proof -
  from assms obtain r where
    "find (row_matches [Eq ''id'' i, Eq ''is_deleted'' (VBool False)]) (table s) = Some r"
    by (auto simp: exists_result split: option.splits)
  then have "row_matches [Eq ''id'' i, Eq ''is_deleted'' (VBool False)] r \<and> r \<in> set (table s)"
    by (rule find_Some_holds)
  then have "has_id i r \<and> \<not> soft_deleted r" and "r \<in> set (table s)"
    by (simp_all add: row_matches_def has_id_def soft_deleted_def)
  then show ?thesis by (auto simp: list_ex_iff)
qed

lemma get_includes:
  assumes "no_faults 1 s"
  shows "fst (get model i True fs s)
           = Inr (find (\<lambda>r. filters_hold model fs r \<and> has_id i r) (table s))"
proof -
  have "next_fault s = None" using assms by (simp add: no_faults_next)
  moreover have "row_matches (build_select_stmt model True fs @ [Eq ''id'' i])
      = (\<lambda>r. filters_hold model fs r \<and> has_id i r)"
    by (intro ext) (simp add: row_matches_id build_includes)
  ultimately show ?thesis by (simp add: get_result)
qed

lemma get_one_includes:
  assumes "no_faults 1 s" and "map_of fs ''include_deleted'' = Some v" and "truthy v"
  shows "fst (get_one model fs s)
           = Inr (find (filters_hold model (without_key ''include_deleted'' fs)) (table s))"
proof -
  have "next_fault s = None" using assms(1) by (simp add: no_faults_next)
  then show ?thesis using assms(2,3) by (simp add: get_one_result build_includes)
qed

lemma get_many_includes:
  assumes "no_faults 1 s"
  shows "fst (get_many model skip limit True fs s)
           = Inr (window skip limit (filter (filters_hold model fs) (table s)))"
proof -
  have "next_fault s = None" using assms by (simp add: no_faults_next)
  then show ?thesis by (simp add: get_many_result build_includes)
qed

lemma list_page_includes:
  assumes "fst (list_page model p k True fs s) = Inr resp"
  shows "total resp = int (length (filter (filters_hold model fs) (table s)))
       \<and> data resp = take (nat (per_page resp)) (drop (nat ((page resp - 1) * per_page resp))
           (filter (filters_hold model fs) (table s)))"
  using list_page_ok [OF assms] by (simp add: build_includes)

lemma count_includes:
  assumes "no_faults 1 s"
  shows "fst (count model True fs s) = Inr (int (length (filter (filters_hold model fs) (table s))))"
proof -
  have "next_fault s = None" using assms by (simp add: no_faults_next)
  then show ?thesis by (simp add: count_result build_includes)
qed

lemma find_None_list_ex: "(find P xs = None) = (\<not> list_ex P xs)"
  by (induction xs) simp_all

lemma exists_includes:
  assumes "no_faults 1 s" and "i \<noteq> VNone"
  shows "fst (exists model i True s) = Inr (list_ex (has_id i) (table s))"
proof -
  have nf: "next_fault s = None" using assms(1) by (simp add: no_faults_next)
  have rm: "row_matches [Eq ''id'' i] = has_id i"
    by (intro ext) (simp add: row_matches_def has_id_def)
  show ?thesis
  proof (cases "find (has_id i) (table s)")
    case None
    then have "list_ex (has_id i) (table s) = False"
      by (simp add: find_None_list_ex [symmetric])
    with None nf show ?thesis by (simp add: exists_result rm)
  next
    case (Some r)
    then have "has_id i r" by (rule find_Some_holds [THEN conjunct1])
    then have "map_of r ''id'' \<noteq> Some VNone" using assms(2) by (simp add: has_id_def)
    moreover have "list_ex (has_id i) (table s)"
      using Some find_None_list_ex [of "has_id i" "table s"] by simp
    ultimately show ?thesis using nf Some by (simp add: exists_result rm)
  qed
qed

lemma no_faults_3_unfold:
  assumes "no_faults 3 s"
  shows "next_fault s = None" and "next_fault (advance ea s) = None"
    and "next_fault (advance eb (advance ea s)) = None"
proof -
  have a: "no_faults (Suc (Suc (Suc 0))) s" using assms by (simp add: numeral_3_eq_3)
  show "next_fault s = None" by (rule no_faults_next [OF a])
  have b: "no_faults (Suc (Suc 0)) (advance ea s)" by (rule no_faults_advance [OF a])
  show "next_fault (advance ea s) = None" by (rule no_faults_next [OF b])
  have c: "no_faults (Suc 0) (advance eb (advance ea s))" by (rule no_faults_advance [OF b])
  show "next_fault (advance eb (advance ea s)) = None" by (rule no_faults_next [OF c])
qed

lemma force_delete_found:
  assumes "no_faults 3 s" and "find (has_id i) (table s) = Some r"
  shows "fst (force_delete model i s) = Inr True"
    and "table (snd (force_delete model i s)) = remove1 r (table s)"
proof -
  let ?s0 = "s\<lparr>pending := table s, log := log s @ [Acquire]\<rparr>"
  have "no_faults 3 ?s0" using assms(1) by simp
  note nf = no_faults_3_unfold [OF this]
  show "fst (force_delete model i s) = Inr True"
    using assms(2) nf(1) nf(2) [where ea = Get] nf(3) [where ea = Get and eb = Delete]
    by (simp add: force_delete_def with_session_def try_write_def bind_db_def db_get_def
        db_delete_def db_commit_def return_db_def storage_call_alt)
  show "table (snd (force_delete model i s)) = remove1 r (table s)"
    using assms(2) nf(1) nf(2) [where ea = Get] nf(3) [where ea = Get and eb = Delete]
    by (simp add: force_delete_def with_session_def try_write_def bind_db_def db_get_def
        db_delete_def db_commit_def return_db_def storage_call_alt)
qed

lemma visibility_part1:
  assumes "hasattr model ''is_deleted''"
  shows "\<forall>r. fst (get model i False fs s) = Inr (Some r) \<longrightarrow> \<not> soft_deleted r"
proof (intro allI impI)
  fix r assume h: "fst (get model i False fs s) = Inr (Some r)"
  show "\<not> soft_deleted r" by (rule get_excludes [OF assms h])
qed

lemma visibility_part2:
  assumes "hasattr model ''is_deleted''"
  shows "\<forall>r. (case map_of fs ''include_deleted'' of None \<Rightarrow> True | Some v \<Rightarrow> \<not> truthy v)
           \<and> fst (get_one model fs s) = Inr (Some r)
           \<longrightarrow> \<not> soft_deleted r"
proof (intro allI impI)
  fix r assume h: "(case map_of fs ''include_deleted'' of None \<Rightarrow> True | Some v \<Rightarrow> \<not> truthy v)
           \<and> fst (get_one model fs s) = Inr (Some r)"
  show "\<not> soft_deleted r"
    by (rule get_one_excludes [OF assms conjunct1 [OF h] conjunct2 [OF h]])
qed

lemma visibility_part3:
  assumes "hasattr model ''is_deleted''"
  shows "\<forall>rs. fst (get_many model skip limit False fs s) = Inr rs
           \<longrightarrow> list_all (\<lambda>r. \<not> soft_deleted r) rs"
proof (intro allI impI)
  fix rs assume h: "fst (get_many model skip limit False fs s) = Inr rs"
  show "list_all (\<lambda>r. \<not> soft_deleted r) rs" by (rule get_many_excludes [OF assms h])
qed

lemma visibility_part4:
  assumes "hasattr model ''is_deleted''"
  shows "\<forall>resp. fst (list_page model p k False fs s) = Inr resp
           \<longrightarrow> list_all (\<lambda>r. \<not> soft_deleted r) (data resp)
             \<and> total resp = int (length (filter
                 (\<lambda>r. map_of r ''is_deleted'' = Some (VBool False) \<and> filters_hold model fs r)
                 (table s)))"
proof (intro allI impI)
  fix resp assume h: "fst (list_page model p k False fs s) = Inr resp"
  show "list_all (\<lambda>r. \<not> soft_deleted r) (data resp)
             \<and> total resp = int (length (filter
                 (\<lambda>r. map_of r ''is_deleted'' = Some (VBool False) \<and> filters_hold model fs r)
                 (table s)))"
    by (rule conjI [OF list_page_excludes(1) [OF assms h] list_page_excludes(2) [OF assms h]])
qed

lemma visibility_part5:
  assumes "hasattr model ''is_deleted''"
  shows "\<forall>n. fst (count model False fs s) = Inr n
           \<longrightarrow> n = int (length (filter
                 (\<lambda>r. map_of r ''is_deleted'' = Some (VBool False) \<and> filters_hold model fs r)
                 (table s)))"
proof (intro allI impI)
  fix n assume h: "fst (count model False fs s) = Inr n"
  show "n = int (length (filter
                 (\<lambda>r. map_of r ''is_deleted'' = Some (VBool False) \<and> filters_hold model fs r)
                 (table s)))"
    by (rule count_excludes [OF assms h])
qed

lemma visibility_part6:
  assumes "hasattr model ''is_deleted''"
  shows "fst (exists model i False s) = Inr True
           \<longrightarrow> list_ex (\<lambda>r. has_id i r \<and> \<not> soft_deleted r) (table s)"
proof (intro impI)
  assume h: "fst (exists model i False s) = Inr True"
  show "list_ex (\<lambda>r. has_id i r \<and> \<not> soft_deleted r) (table s)"
    by (rule exists_excludes [OF assms h])
qed

lemma visibility_part7:
  "no_faults 1 s \<longrightarrow>
          fst (get model i True fs s)
            = Inr (find (\<lambda>r. filters_hold model fs r \<and> has_id i r) (table s))
          \<and> fst (get_many model skip limit True fs s)
            = Inr (window skip limit (filter (filters_hold model fs) (table s)))
          \<and> fst (count model True fs s)
            = Inr (int (length (filter (filters_hold model fs) (table s))))
          \<and> (i \<noteq> VNone \<longrightarrow> fst (exists model i True s) = Inr (list_ex (has_id i) (table s)))
          \<and> (\<forall>v. map_of fs ''include_deleted'' = Some v \<and> truthy v \<longrightarrow>
                fst (get_one model fs s)
                  = Inr (find (filters_hold model (without_key ''include_deleted'' fs)) (table s)))"
proof (intro impI)
  assume nf: "no_faults 1 s"
  have e: "i \<noteq> VNone \<longrightarrow> fst (exists model i True s) = Inr (list_ex (has_id i) (table s))"
  proof (intro impI)
    assume h: "i \<noteq> VNone"
    show "fst (exists model i True s) = Inr (list_ex (has_id i) (table s))"
      by (rule exists_includes [OF nf h])
  qed
  have g: "\<forall>v. map_of fs ''include_deleted'' = Some v \<and> truthy v \<longrightarrow>
                fst (get_one model fs s)
                  = Inr (find (filters_hold model (without_key ''include_deleted'' fs)) (table s))"
  proof (intro allI impI)
    fix v assume h: "map_of fs ''include_deleted'' = Some v \<and> truthy v"
    show "fst (get_one model fs s)
                  = Inr (find (filters_hold model (without_key ''include_deleted'' fs)) (table s))"
      by (rule get_one_includes [OF nf conjunct1 [OF h] conjunct2 [OF h]])
  qed
  show "fst (get model i True fs s)
            = Inr (find (\<lambda>r. filters_hold model fs r \<and> has_id i r) (table s))
          \<and> fst (get_many model skip limit True fs s)
            = Inr (window skip limit (filter (filters_hold model fs) (table s)))
          \<and> fst (count model True fs s)
            = Inr (int (length (filter (filters_hold model fs) (table s))))
          \<and> (i \<noteq> VNone \<longrightarrow> fst (exists model i True s) = Inr (list_ex (has_id i) (table s)))
          \<and> (\<forall>v. map_of fs ''include_deleted'' = Some v \<and> truthy v \<longrightarrow>
                fst (get_one model fs s)
                  = Inr (find (filters_hold model (without_key ''include_deleted'' fs)) (table s)))"
    by (rule conjI [OF get_includes [OF nf] conjI [OF get_many_includes [OF nf]
          conjI [OF count_includes [OF nf] conjI [OF e g]]]])
qed

lemma visibility_part8:
  "\<forall>resp. fst (list_page model p k True fs s) = Inr resp
           \<longrightarrow> total resp = int (length (filter (filters_hold model fs) (table s)))
             \<and> data resp = take (nat (per_page resp)) (drop (nat ((page resp - 1) * per_page resp))
                 (filter (filters_hold model fs) (table s)))"
proof (intro allI impI)
  fix resp assume h: "fst (list_page model p k True fs s) = Inr resp"
  show "total resp = int (length (filter (filters_hold model fs) (table s)))
             \<and> data resp = take (nat (per_page resp)) (drop (nat ((page resp - 1) * per_page resp))
                 (filter (filters_hold model fs) (table s)))"
    by (rule list_page_includes [OF h])
qed

lemma visibility_part9:
  "\<forall>r. no_faults 3 s \<and> find (has_id i) (table s) = Some r
           \<longrightarrow> fst (force_delete model i s) = Inr True
             \<and> table (snd (force_delete model i s)) = remove1 r (table s)"
proof (intro allI impI)
  fix r assume h: "no_faults 3 s \<and> find (has_id i) (table s) = Some r"
  note a = conjunct1 [OF h] and b = conjunct2 [OF h]
  show "fst (force_delete model i s) = Inr True
             \<and> table (snd (force_delete model i s)) = remove1 r (table s)"
    by (rule conjI [OF force_delete_found(1) [OF a b] force_delete_found(2) [OF a b]])
qed

text \<open>
  Claim C3. For an entity that declares \<^verbatim>\<open>is_deleted\<close>: with \<^verbatim>\<open>include_deleted\<close> false, no record
  that \<^verbatim>\<open>get\<close>, \<^verbatim>\<open>get_one\<close>, \<^verbatim>\<open>get_many\<close> or \<^verbatim>\<open>list\<close> returns has its flag set, \<^verbatim>\<open>count\<close> and the
  total of \<^verbatim>\<open>list\<close> count only records whose flag is false, and \<^verbatim>\<open>exists\<close> answers true only
  when a record with that identifier has its flag unset. For \<^verbatim>\<open>get_one\<close>, which takes the
  switch among its keywords, false means that the keyword is absent or that its value is
  falsy. With \<^verbatim>\<open>include_deleted\<close> true the results are those of the filters alone, whatever the
  flags: the first record with the identifier, the window of all matching rows (for every
  integer offset and limit, negative ones included), their number, and the existence of a
  record with the identifier. \<^verbatim>\<open>force_delete\<close> removes the record with the identifier, with
  no condition on its flag.
\<close>

theorem soft_delete_visibility:
  assumes "hasattr model ''is_deleted''"
  shows "(\<forall>r. fst (get model i False fs s) = Inr (Some r) \<longrightarrow> \<not> soft_deleted r)
    \<and> (\<forall>r. (case map_of fs ''include_deleted'' of None \<Rightarrow> True | Some v \<Rightarrow> \<not> truthy v)
           \<and> fst (get_one model fs s) = Inr (Some r)
           \<longrightarrow> \<not> soft_deleted r)
    \<and> (\<forall>rs. fst (get_many model skip limit False fs s) = Inr rs
           \<longrightarrow> list_all (\<lambda>r. \<not> soft_deleted r) rs)
    \<and> (\<forall>resp. fst (list_page model p k False fs s) = Inr resp
           \<longrightarrow> list_all (\<lambda>r. \<not> soft_deleted r) (data resp)
             \<and> total resp = int (length (filter
                 (\<lambda>r. map_of r ''is_deleted'' = Some (VBool False) \<and> filters_hold model fs r)
                 (table s))))
    \<and> (\<forall>n. fst (count model False fs s) = Inr n
           \<longrightarrow> n = int (length (filter
                 (\<lambda>r. map_of r ''is_deleted'' = Some (VBool False) \<and> filters_hold model fs r)
                 (table s))))
    \<and> (fst (exists model i False s) = Inr True
           \<longrightarrow> list_ex (\<lambda>r. has_id i r \<and> \<not> soft_deleted r) (table s))
    \<and> (no_faults 1 s \<longrightarrow>
          fst (get model i True fs s)
            = Inr (find (\<lambda>r. filters_hold model fs r \<and> has_id i r) (table s))
          \<and> fst (get_many model skip limit True fs s)
            = Inr (window skip limit (filter (filters_hold model fs) (table s)))
          \<and> fst (count model True fs s)
            = Inr (int (length (filter (filters_hold model fs) (table s))))
          \<and> (i \<noteq> VNone \<longrightarrow> fst (exists model i True s) = Inr (list_ex (has_id i) (table s)))
          \<and> (\<forall>v. map_of fs ''include_deleted'' = Some v \<and> truthy v \<longrightarrow>
                fst (get_one model fs s)
                  = Inr (find (filters_hold model (without_key ''include_deleted'' fs)) (table s))))
    \<and> (\<forall>resp. fst (list_page model p k True fs s) = Inr resp
           \<longrightarrow> total resp = int (length (filter (filters_hold model fs) (table s)))
             \<and> data resp = take (nat (per_page resp)) (drop (nat ((page resp - 1) * per_page resp))
                 (filter (filters_hold model fs) (table s))))
    \<and> (\<forall>r. no_faults 3 s \<and> find (has_id i) (table s) = Some r
           \<longrightarrow> fst (force_delete model i s) = Inr True
             \<and> table (snd (force_delete model i s)) = remove1 r (table s))"
  by (rule conjI [OF visibility_part1 [OF assms] conjI [OF visibility_part2 [OF assms] conjI [OF visibility_part3 [OF assms] conjI [OF visibility_part4 [OF assms] conjI [OF visibility_part5 [OF assms] conjI [OF visibility_part6 [OF assms] conjI [OF visibility_part7 conjI [OF visibility_part8 visibility_part9]]]]]]]])

lemma get_deleted_example:
  "find (\<lambda>r. filters_hold post_model [] r \<and> has_id (VInt 2) r) (table three_posts)
     = Some (post_row 2 ''b'' True)"
  by (simp add: filters_hold_def has_id_def three_posts_def post_row_def)

theorem soft_delete_visibility_witness:
  "hasattr post_model ''is_deleted'' \<and> no_faults 1 three_posts
   \<and> soft_deleted (post_row 2 ''b'' True)
   \<and> fst (get post_model (VInt 2) True [] three_posts) = Inr (Some (post_row 2 ''b'' True))
   \<and> fst (get post_model (VInt 2) False [] three_posts) = Inr None"
proof -
  have a: "hasattr post_model ''is_deleted''"
    by (simp add: hasattr_def members_def member_value_def post_model_def)
  have b: "no_faults 1 three_posts"
    by (simp add: three_posts_def no_faults_def)
  have c: "soft_deleted (post_row 2 ''b'' True)"
    by (simp add: soft_deleted_def post_row_def)
  note t = soft_delete_visibility [OF a, of "VInt 2" "[]" three_posts]
  note t7 = conjunct1 [OF conjunct2 [OF conjunct2 [OF conjunct2 [OF conjunct2 [OF conjunct2
              [OF conjunct2 [OF t]]]]]]]
  note inc = conjunct1 [OF mp [OF t7 b]]
  have d: "fst (get post_model (VInt 2) True [] three_posts) = Inr (Some (post_row 2 ''b'' True))"
    using inc by (simp only: get_deleted_example)
  have e: "fst (get post_model (VInt 2) False [] three_posts) = Inr None"
    by (simp add: get_def with_session_def try_read_def bind_db_def db_exec_def return_db_def
        storage_call_def build_select_stmt_def where_clause_def hasattr_def members_def member_value_def
        row_matches_def first_def three_posts_def post_model_def post_row_def)
  show ?thesis
    by (rule conjI [OF a conjI [OF b conjI [OF c conjI [OF d e]]]])
qed

lemma handle_db_error_shape:
  "\<exists>msg. handle_db_error e operation = RepositoryError msg (Some e)"
  by (cases e) simp_all

lemma no_fault_hit_iff:
  "no_fault_hit s s' =
     (\<exists>n\<le>length (faults s). faults s' = drop n (faults s)
         \<and> list_all (\<lambda>f. f = None) (take n (faults s)))"
  unfolding no_fault_hit_def list_ex_iff Bex_def by (auto simp: le_less)

lemma fault_raised_iff:
  "list_ex (\<lambda>n. faults s' = drop (Suc n) (faults s)
                   \<and> list_all (\<lambda>f. f = None) (take n (faults s)) \<and> faults s ! n = Some e)
        [0..<length (faults s)] =
     (\<exists>n<length (faults s). faults s' = drop (Suc n) (faults s)
         \<and> list_all (\<lambda>f. f = None) (take n (faults s)) \<and> faults s ! n = Some e)"
  unfolding list_ex_iff Bex_def by simp

lemma no_fault_hit_same: "faults s' = faults s \<Longrightarrow> no_fault_hit s s'"
proof -
  assume a: "faults s' = faults s"
  have "0 \<le> length (faults s) \<and> faults s' = drop 0 (faults s)
      \<and> list_all (\<lambda>f. f = None) (take 0 (faults s))"
    using a by simp
  then show ?thesis unfolding no_fault_hit_iff by (rule exI)
qed

lemma no_fault_hit_trans:
  assumes "no_fault_hit s s1" and "no_fault_hit s1 s2"
  shows "no_fault_hit s s2"
proof -
  from assms(1) obtain n1 where n1: "n1 \<le> length (faults s)" "faults s1 = drop n1 (faults s)"
      "list_all (\<lambda>f. f = None) (take n1 (faults s))"
    unfolding no_fault_hit_iff by blast
  from assms(2) obtain n2 where n2: "n2 \<le> length (faults s1)" "faults s2 = drop n2 (faults s1)"
      "list_all (\<lambda>f. f = None) (take n2 (faults s1))"
    unfolding no_fault_hit_iff by blast
  have a: "n1 + n2 \<le> length (faults s)" using n1(1,2) n2(1) by simp
  have b: "faults s2 = drop (n1 + n2) (faults s)" using n1(2) n2(2) by (simp add: add.commute)
  have c: "list_all (\<lambda>f. f = None) (take (n1 + n2) (faults s))"
    using n1(3) n2(3) n1(2) by (simp add: take_add)
  from a b c have "n1 + n2 \<le> length (faults s) \<and> faults s2 = drop (n1 + n2) (faults s)
      \<and> list_all (\<lambda>f. f = None) (take (n1 + n2) (faults s))"
    by simp
  then show ?thesis unfolding no_fault_hit_iff by (rule exI)
qed

lemma failed_with_after:
  assumes "no_fault_hit s s1" and "failed_with s1 s2 e"
  shows "failed_with s s2 e"
proof -
  from assms(1) obtain n1 where n1: "n1 \<le> length (faults s)" "faults s1 = drop n1 (faults s)"
      "list_all (\<lambda>f. f = None) (take n1 (faults s))"
    unfolding no_fault_hit_iff by blast
  from assms(2) consider
      (fault) n2 where "n2 < length (faults s1)" "faults s2 = drop (Suc n2) (faults s1)"
        "list_all (\<lambda>f. f = None) (take n2 (faults s1))" "faults s1 ! n2 = Some e"
    | (gone) "no_fault_hit s1 s2" "e = OtherSQLAlchemyError ''Could not refresh instance''"
    unfolding failed_with_def fault_raised_iff by blast
  then show ?thesis
  proof cases
    case fault
    have a: "n1 + n2 < length (faults s)" using n1(1,2) fault(1) by simp
    have b: "faults s2 = drop (Suc (n1 + n2)) (faults s)"
      using n1(2) fault(2) by (simp add: add.commute)
    have c: "list_all (\<lambda>f. f = None) (take (n1 + n2) (faults s))"
      using n1(3) fault(3) n1(2) by (simp add: take_add)
    have d: "faults s ! (n1 + n2) = Some e"
      using fault(4) n1(1,2) by (simp add: nth_drop)
    from a b c d have "n1 + n2 < length (faults s) \<and> faults s2 = drop (Suc (n1 + n2)) (faults s)
        \<and> list_all (\<lambda>f. f = None) (take (n1 + n2) (faults s)) \<and> faults s ! (n1 + n2) = Some e"
      by simp
    then have "\<exists>n<length (faults s). faults s2 = drop (Suc n) (faults s)
        \<and> list_all (\<lambda>f. f = None) (take n (faults s)) \<and> faults s ! n = Some e"
      by (rule exI)
    then show ?thesis unfolding failed_with_def fault_raised_iff by (rule disjI1)
  next
    case gone
    have "no_fault_hit s s2" by (rule no_fault_hit_trans [OF assms(1) gone(1)])
    with gone(2) show ?thesis unfolding failed_with_def by simp
  qed
qed

lemma no_fault_hit_cong:
  "faults a = faults a' \<Longrightarrow> faults b = faults b' \<Longrightarrow> no_fault_hit a b = no_fault_hit a' b'"
  by (simp add: no_fault_hit_def)

lemma failed_with_cong:
  "faults a = faults a' \<Longrightarrow> faults b = faults b' \<Longrightarrow> failed_with a b e = failed_with a' b' e"
  by (simp add: failed_with_def no_fault_hit_def)

lemma keeps_scheduleI:
  assumes "\<And>s e s'. c s = (Inl e, s') \<Longrightarrow> failed_with s s' e"
    and "\<And>s v s'. c s = (Inr v, s') \<Longrightarrow> no_fault_hit s s'"
  shows "keeps_schedule c"
  unfolding keeps_schedule_def
proof
  fix s
  obtain r s' where c: "c s = (r, s')" by (cases "c s")
  show "case fst (c s) of Inl e \<Rightarrow> failed_with s (snd (c s)) e
          | Inr v \<Rightarrow> no_fault_hit s (snd (c s))"
  proof (cases r)
    case (Inl e)
    with c assms(1) [of s e s'] show ?thesis by simp
  next
    case (Inr v)
    with c assms(2) [of s v s'] show ?thesis by simp
  qed
qed

lemma keeps_schedule_Inl:
  "keeps_schedule c \<Longrightarrow> c s = (Inl e, s') \<Longrightarrow> failed_with s s' e"
  unfolding keeps_schedule_def by (drule spec [of _ s]) simp

lemma keeps_schedule_Inr:
  "keeps_schedule c \<Longrightarrow> c s = (Inr v, s') \<Longrightarrow> no_fault_hit s s'"
  unfolding keeps_schedule_def by (drule spec [of _ s]) simp

lemma ks_storage_call: "keeps_schedule (storage_call ev)"
proof (rule keeps_scheduleI)
  fix s :: storage and e :: sqla_error and s' :: storage
  assume a: "storage_call ev s = (Inl e, s')"
  then obtain fs where f: "faults s = Some e # fs" and s': "faults s' = fs"
    by (auto simp: storage_call_def split: list.splits option.splits)
  have "0 < length (faults s) \<and> faults s' = drop (Suc 0) (faults s)
      \<and> list_all (\<lambda>f. f = None) (take 0 (faults s)) \<and> faults s ! 0 = Some e"
    using f s' by simp
  then have "\<exists>n<length (faults s). faults s' = drop (Suc n) (faults s)
      \<and> list_all (\<lambda>f. f = None) (take n (faults s)) \<and> faults s ! n = Some e"
    by (rule exI)
  then show "failed_with s s' e" unfolding failed_with_def fault_raised_iff by (rule disjI1)
next
  fix s :: storage and v and s' :: storage
  assume a: "storage_call ev s = (Inr v, s')"
  show "no_fault_hit s s'"
  proof (cases "faults s")
    case Nil
    with a have "faults s' = faults s" by (auto simp: storage_call_def)
    then show ?thesis by (rule no_fault_hit_same)
  next
    case (Cons f fs)
    with a have f: "f = None" and s': "faults s' = fs"
      by (auto simp: storage_call_def split: option.splits)
    have "1 \<le> length (faults s) \<and> faults s' = drop 1 (faults s)
        \<and> list_all (\<lambda>f. f = None) (take 1 (faults s))"
      using Cons f s' by simp
    then show ?thesis unfolding no_fault_hit_iff by (rule exI)
  qed
qed

lemma ks_bind:
  assumes m: "keeps_schedule m" and f: "\<And>v. keeps_schedule (f v)"
  shows "keeps_schedule (bind_db m f)"
proof (rule keeps_scheduleI)
  fix s :: storage and e :: sqla_error and s' :: storage
  assume a: "bind_db m f s = (Inl e, s')"
  obtain r s1 where ms: "m s = (r, s1)" by (cases "m s")
  show "failed_with s s' e"
  proof (cases r)
    case (Inl e1)
    with a ms have "e1 = e" "s1 = s'" by (simp_all add: bind_db_def)
    with ms Inl have "m s = (Inl e, s')" by simp
    with m show ?thesis by (rule keeps_schedule_Inl)
  next
    case (Inr v)
    with ms have mv: "m s = (Inr v, s1)" by simp
    have 1: "no_fault_hit s s1" by (rule keeps_schedule_Inr [OF m mv])
    from a mv have "f v s1 = (Inl e, s')" by (simp add: bind_db_def)
    then have 2: "failed_with s1 s' e" by (rule keeps_schedule_Inl [OF f])
    show ?thesis by (rule failed_with_after [OF 1 2])
  qed
next
  fix s :: storage and v and s' :: storage
  assume a: "bind_db m f s = (Inr v, s')"
  obtain r s1 where ms: "m s = (r, s1)" by (cases "m s")
  show "no_fault_hit s s'"
  proof (cases r)
    case (Inl e1)
    with a ms show ?thesis by (simp add: bind_db_def)
  next
    case (Inr u)
    with ms have mv: "m s = (Inr u, s1)" by simp
    have 1: "no_fault_hit s s1" by (rule keeps_schedule_Inr [OF m mv])
    from a mv have "f u s1 = (Inr v, s')" by (simp add: bind_db_def)
    then have 2: "no_fault_hit s1 s'" by (rule keeps_schedule_Inr [OF f])
    show ?thesis by (rule no_fault_hit_trans [OF 1 2])
  qed
qed

lemma ks_pure:
  assumes "\<And>s. faults (g s) = faults s"
  shows "keeps_schedule (\<lambda>s. (Inr (v s), g s))"
proof (rule keeps_scheduleI)
  fix s :: storage and e :: sqla_error and s' :: storage
  assume "(Inr (v s), g s) = (Inl e, s')"
  then show "failed_with s s' e" by simp
next
  fix s :: storage and u and s' :: storage
  assume "(Inr (v s), g s) = (Inr u, s')"
  then have "faults s' = faults s" using assms [of s] by auto
  then show "no_fault_hit s s'" by (rule no_fault_hit_same)
qed

lemma ks_return: "keeps_schedule (return_db v)"
  using ks_pure [where g = "\<lambda>s. s" and v = "\<lambda>s. v"] by (simp add: return_db_def [abs_def])

lemma ks_read: "keeps_schedule (\<lambda>s. (Inr (v s), s))"
  by (rule ks_pure [where g = "\<lambda>s. s"]) simp

lemma ks_db_get: "keeps_schedule (db_get i)"
  unfolding db_get_def by (rule ks_bind [OF ks_storage_call]) (rule ks_read)

lemma ks_db_exec: "keeps_schedule (db_exec st)"
  unfolding db_exec_def by (rule ks_bind [OF ks_storage_call]) (rule ks_read)

lemma ks_db_commit: "keeps_schedule db_commit"
  unfolding db_commit_def
  by (rule ks_bind [OF ks_storage_call])
     (rule ks_pure [where g = "\<lambda>s. s\<lparr>table := pending s\<rparr>"], simp)

lemma ks_db_delete: "keeps_schedule (db_delete obj)"
  unfolding db_delete_def
  by (rule ks_bind [OF ks_storage_call])
     (rule ks_pure [where g = "\<lambda>s. s\<lparr>pending := remove1 obj (pending s)\<rparr>"], simp)

lemma ks_reload:
  "keeps_schedule (\<lambda>s. (case find (has_id i) (table s) of
                  None \<Rightarrow> Inl (OtherSQLAlchemyError ''Could not refresh instance'')
                | Some r \<Rightarrow> Inr r, s))"
proof (rule keeps_scheduleI)
  fix s :: storage and e :: sqla_error and s' :: storage
  assume a: "(case find (has_id i) (table s) of
                  None \<Rightarrow> Inl (OtherSQLAlchemyError ''Could not refresh instance'')
                | Some r \<Rightarrow> Inr r, s) = (Inl e, s')"
  then have "s' = s" and "e = OtherSQLAlchemyError ''Could not refresh instance''"
    by (auto split: option.splits)
  then show "failed_with s s' e"
    unfolding failed_with_def by (simp add: no_fault_hit_same)
next
  fix s :: storage and v and s' :: storage
  assume "(case find (has_id i) (table s) of
                  None \<Rightarrow> Inl (OtherSQLAlchemyError ''Could not refresh instance'')
                | Some r \<Rightarrow> Inr r, s) = (Inr v, s')"
  then have "faults s' = faults s" by auto
  then show "no_fault_hit s s'" by (rule no_fault_hit_same)
qed

lemma ks_db_refresh: "keeps_schedule (db_refresh i)"
  unfolding db_refresh_def by (rule ks_bind [OF ks_storage_call]) (rule ks_reload)

lemma ks_refresh_all: "keeps_schedule (refresh_all oids)"
proof (induction oids)
  case Nil
  show ?case by (simp add: ks_return)
next
  case (Cons oid oids)
  show ?case
    unfolding refresh_all.simps
    by (rule ks_bind [OF ks_db_refresh]) (rule ks_bind [OF Cons.IH], rule ks_return)
qed

lemma ks_delete_all: "keeps_schedule (delete_all objs)"
proof (induction objs)
  case Nil
  show ?case by (simp add: ks_return)
next
  case (Cons obj objs)
  show ?case
    unfolding delete_all.simps by (rule ks_bind [OF ks_db_delete]) (rule Cons.IH)
qed

lemma ks_after:
  assumes g: "\<And>s. faults (snd (g s)) = faults s" and c: "\<And>x. keeps_schedule (c x)"
  shows "keeps_schedule (\<lambda>s. case g s of (x, s1) \<Rightarrow> c x s1)"
proof (rule keeps_scheduleI)
  fix s :: storage and e :: sqla_error and s' :: storage
  assume a: "(case g s of (x, s1) \<Rightarrow> c x s1) = (Inl e, s')"
  obtain x s1 where gs: "g s = (x, s1)" by (cases "g s")
  then have fs: "faults s1 = faults s" using g [of s] by simp
  from a gs have "c x s1 = (Inl e, s')" by simp
  then have "failed_with s1 s' e" by (rule keeps_schedule_Inl [OF c])
  then show "failed_with s s' e" using failed_with_cong [OF fs refl] by simp
next
  fix s :: storage and v and s' :: storage
  assume a: "(case g s of (x, s1) \<Rightarrow> c x s1) = (Inr v, s')"
  obtain x s1 where gs: "g s = (x, s1)" by (cases "g s")
  then have fs: "faults s1 = faults s" using g [of s] by simp
  from a gs have "c x s1 = (Inr v, s')" by simp
  then have "no_fault_hit s1 s'" by (rule keeps_schedule_Inr [OF c])
  then show "no_fault_hit s s'" using no_fault_hit_cong [OF fs refl] by simp
qed

lemma ks_pre:
  assumes c: "keeps_schedule c" and g: "\<And>s. faults (g s) = faults s"
  shows "keeps_schedule (\<lambda>s. c (g s))"
  using ks_after [where g = "\<lambda>s. ((), g s)" and c = "\<lambda>_. c"] c g by simp

lemma faults_db_add: "faults (snd (db_add obj s)) = faults s"
  by (simp add: db_add_def Let_def)

lemma faults_add_all: "faults (snd (add_all objs s)) = faults s"
proof (induction objs arbitrary: s)
  case Nil
  show ?case by simp
next
  case (Cons obj objs)
  obtain oid s1 where a: "db_add obj s = (oid, s1)" by (cases "db_add obj s")
  obtain oids s2 where b: "add_all objs s1 = (oids, s2)" by (cases "add_all objs s1")
  have "faults s1 = faults s" using faults_db_add [of obj s] a by simp
  moreover have "faults s2 = faults s1" using Cons.IH [of s1] b by simp
  ultimately show ?case using a b by simp
qed

lemma faults_setattr: "faults (setattr i key v s) = faults s"
  by (simp add: setattr_def)

lemma faults_instance_setattr:
  "instance_setattr model i key v s = Inr s' \<Longrightarrow> faults s' = faults s"
  by (auto simp: instance_setattr_def faults_setattr split: if_splits option.splits member.splits)

lemma faults_apply_update: "apply_update model i d s = Inr s' \<Longrightarrow> faults s' = faults s"
proof (induction d arbitrary: s)
  case Nil
  then show ?case by simp
next
  case (Cons kv d)
  obtain key v where kv: "kv = (key, v)" by (cases kv)
  show ?case
  proof (cases "hasattr model key \<and> key \<noteq> ''id''")
    case False
    with Cons.prems kv have "apply_update model i d s = Inr s'" by auto
    then show ?thesis by (rule Cons.IH)
  next
    case True
    show ?thesis
    proof (cases "instance_setattr model i key v s")
      case (Inl ex)
      with Cons.prems kv True show ?thesis by simp
    next
      case (Inr s1)
      with Cons.prems kv True have "apply_update model i d s1 = Inr s'" by simp
      then have "faults s' = faults s1" by (rule Cons.IH)
      with faults_instance_setattr [OF Inr] show ?thesis by simp
    qed
  qed
qed

lemma instance_setattr_raises:
  "instance_setattr model i key v s = Inl ex \<Longrightarrow> ex = AttributeError key \<or> ex = ValueError key"
  by (auto simp: instance_setattr_def split: if_splits option.splits member.splits)

lemma apply_update_raises:
  "apply_update model i d s = Inl ex \<Longrightarrow> \<exists>key. ex = AttributeError key \<or> ex = ValueError key"
proof (induction d arbitrary: s)
  case Nil
  then show ?case by simp
next
  case (Cons kv d)
  obtain key v where kv: "kv = (key, v)" by (cases kv)
  show ?case
  proof (cases "hasattr model key \<and> key \<noteq> ''id''")
    case False
    with Cons.prems kv have "apply_update model i d s = Inl ex" by auto
    then show ?thesis by (rule Cons.IH)
  next
    case True
    show ?thesis
    proof (cases "instance_setattr model i key v s")
      case (Inl ex')
      with Cons.prems kv True have "ex' = ex" by simp
      with instance_setattr_raises [OF Inl] show ?thesis by blast
    next
      case (Inr s1)
      with Cons.prems kv True have "apply_update model i d s1 = Inl ex" by simp
      then show ?thesis by (rule Cons.IH)
    qed
  qed
qed

lemma ks_commit_then: "keeps_schedule c \<Longrightarrow> keeps_schedule (bind_db db_commit (\<lambda>_. c))"
  by (rule ks_bind [OF ks_db_commit])

lemma ks_create_body:
  "keeps_schedule (\<lambda>s. case db_add obj s of (oid, s1) \<Rightarrow> bind_db db_commit (\<lambda>_. db_refresh oid) s1)"
  by (rule ks_after [where g = "db_add obj" and c = "\<lambda>oid. bind_db db_commit (\<lambda>_. db_refresh oid)"])
     (rule faults_db_add, rule ks_commit_then, rule ks_db_refresh)

lemma ks_create_many_body:
  "keeps_schedule (\<lambda>s. case add_all objs s of (oids, s1) \<Rightarrow> bind_db db_commit (\<lambda>_. refresh_all oids) s1)"
  by (rule ks_after [where g = "add_all objs" and c = "\<lambda>oids. bind_db db_commit (\<lambda>_. refresh_all oids)"])
     (rule faults_add_all, rule ks_commit_then, rule ks_refresh_all)

lemma ks_apply_then:
  assumes c: "keeps_schedule c"
  shows "keeps_schedule (\<lambda>s1. case apply_update model i ud s1 of
                                  Inl ex \<Rightarrow> (Inr (Inl ex), s1)
                                | Inr s2 \<Rightarrow> c s2)"
proof (rule keeps_scheduleI)
  fix s :: storage and e :: sqla_error and s' :: storage
  assume a: "(case apply_update model i ud s of Inl ex \<Rightarrow> (Inr (Inl ex), s) | Inr s2 \<Rightarrow> c s2)
               = (Inl e, s')"
  then obtain s2 where u: "apply_update model i ud s = Inr s2" and cs: "c s2 = (Inl e, s')"
    by (cases "apply_update model i ud s") simp_all
  have fs: "faults s2 = faults s" by (rule faults_apply_update [OF u])
  have "failed_with s2 s' e" by (rule keeps_schedule_Inl [OF c cs])
  then show "failed_with s s' e" using failed_with_cong [OF fs refl] by simp
next
  fix s :: storage and v and s' :: storage
  assume a: "(case apply_update model i ud s of Inl ex \<Rightarrow> (Inr (Inl ex), s) | Inr s2 \<Rightarrow> c s2)
               = (Inr v, s')"
  show "no_fault_hit s s'"
  proof (cases "apply_update model i ud s")
    case (Inl ex)
    with a have "faults s' = faults s" by auto
    then show ?thesis by (rule no_fault_hit_same)
  next
    case (Inr s2)
    with a have cs: "c s2 = (Inr v, s')" by simp
    have fs: "faults s2 = faults s" by (rule faults_apply_update [OF Inr])
    have "no_fault_hit s2 s'" by (rule keeps_schedule_Inr [OF c cs])
    then show ?thesis using no_fault_hit_cong [OF fs refl] by simp
  qed
qed

lemma ks_update_body:
  "keeps_schedule (bind_db (db_get i) (\<lambda>db_obj.
       case db_obj of
         None \<Rightarrow> return_db (Inr None)
       | Some _ \<Rightarrow>
           (\<lambda>s1. case apply_update model i ud s1 of
                    Inl ex \<Rightarrow> (Inr (Inl ex), s1)
                  | Inr s2 \<Rightarrow>
                      bind_db db_commit
                        (\<lambda>_. bind_db (db_refresh i) (\<lambda>r. return_db (Inr (Some r))))
                        s2)))"
proof (rule ks_bind [OF ks_db_get])
  fix db_obj :: "row option"
  have c: "keeps_schedule (bind_db db_commit
             (\<lambda>_. bind_db (db_refresh i) (\<lambda>r. return_db (Inr (Some r) :: py_exception + row option))))"
    by (rule ks_commit_then, rule ks_bind [OF ks_db_refresh], rule ks_return)
  note a = ks_apply_then [OF c, of model i ud]
  show "keeps_schedule (case db_obj of
         None \<Rightarrow> return_db (Inr None)
       | Some _ \<Rightarrow>
           (\<lambda>s1. case apply_update model i ud s1 of
                    Inl ex \<Rightarrow> (Inr (Inl ex), s1)
                  | Inr s2 \<Rightarrow>
                      bind_db db_commit
                        (\<lambda>_. bind_db (db_refresh i) (\<lambda>r. return_db (Inr (Some r))))
                        s2))"
    using a by (cases db_obj) (simp_all add: ks_return)
qed

lemma ks_flag_body:
  "keeps_schedule (bind_db (db_get i) (\<lambda>db_obj.
       case db_obj of
         None \<Rightarrow> return_db False
       | Some _ \<Rightarrow>
           (\<lambda>s1. bind_db db_commit (\<lambda>_. return_db True) (setattr i ''is_deleted'' (VBool b) s1))))"
proof (rule ks_bind [OF ks_db_get])
  fix db_obj :: "row option"
  have c: "keeps_schedule (bind_db db_commit (\<lambda>_. return_db True))"
    by (rule ks_commit_then, rule ks_return)
  have "keeps_schedule (\<lambda>s1. bind_db db_commit (\<lambda>_. return_db True)
                    (setattr i ''is_deleted'' (VBool b) s1))"
    by (rule ks_pre [OF c]) (rule faults_setattr)
  then show "keeps_schedule (case db_obj of
         None \<Rightarrow> return_db False
       | Some _ \<Rightarrow>
           (\<lambda>s1. bind_db db_commit (\<lambda>_. return_db True) (setattr i ''is_deleted'' (VBool b) s1)))"
    by (cases db_obj) (simp_all add: ks_return)
qed

lemma ks_force_delete_body:
  "keeps_schedule (bind_db (db_get i) (\<lambda>db_obj.
       case db_obj of
         None \<Rightarrow> return_db False
       | Some obj \<Rightarrow> bind_db (db_delete obj) (\<lambda>_. bind_db db_commit (\<lambda>_. return_db True))))"
proof (rule ks_bind [OF ks_db_get])
  fix db_obj :: "row option"
  have c: "keeps_schedule (bind_db db_commit (\<lambda>_. return_db True))"
    by (rule ks_commit_then, rule ks_return)
  have "keeps_schedule (bind_db (db_delete obj) (\<lambda>_. bind_db db_commit (\<lambda>_. return_db True)))" for obj
    by (rule ks_bind [OF ks_db_delete]) (rule c)
  then show "keeps_schedule (case db_obj of
         None \<Rightarrow> return_db False
       | Some obj \<Rightarrow> bind_db (db_delete obj) (\<lambda>_. bind_db db_commit (\<lambda>_. return_db True)))"
    by (cases db_obj) (simp_all add: ks_return)
qed

lemma ks_force_delete_many_body:
  "keeps_schedule (bind_db (db_exec [IsIn ''id'' ids]) (\<lambda>objects.
       bind_db (delete_all objects) (\<lambda>_. bind_db db_commit (\<lambda>_. return_db True))))"
proof (rule ks_bind [OF ks_db_exec])
  fix objects :: "row list"
  have c: "keeps_schedule (bind_db db_commit (\<lambda>_. return_db True))"
    by (rule ks_commit_then, rule ks_return)
  show "keeps_schedule (bind_db (delete_all objects) (\<lambda>_. bind_db db_commit (\<lambda>_. return_db True)))"
    by (rule ks_bind [OF ks_delete_all]) (rule c)
qed

lemma try_write_cases:
  assumes ks: "keeps_schedule body"
  obtains (raised) e msg where
      "fst (with_session (try_write operation body) s) = Inl (RepositoryError msg (Some e))"
      "handle_db_error e operation = RepositoryError msg (Some e)"
      "failed_with s (snd (with_session (try_write operation body) s)) e"
      "ends_rolled_back (log (snd (with_session (try_write operation body) s)))"
      "pending (snd (with_session (try_write operation body) s))
         = table (snd (with_session (try_write operation body) s))"
    | (returned) v where
      "fst (with_session (try_write operation body) s) = Inr v"
      "no_fault_hit s (snd (with_session (try_write operation body) s))"
proof -
  let ?s0 = "s\<lparr>pending := table s, log := log s @ [Acquire]\<rparr>"
  let ?w = "with_session (try_write operation body) s"
  obtain r s1 where b: "body ?s0 = (r, s1)" by (cases "body ?s0")
  have f0: "faults ?s0 = faults s" by simp
  show ?thesis
  proof (cases r)
    case (Inr v)
    with b have f: "fst ?w = Inr v" and fs: "faults (snd ?w) = faults s1"
      by (simp_all add: with_session_def try_write_def)
    from b Inr have "body ?s0 = (Inr v, s1)" by simp
    then have "no_fault_hit ?s0 s1" by (rule keeps_schedule_Inr [OF ks])
    then have "no_fault_hit s (snd ?w)"
      using no_fault_hit_cong [OF f0 fs [symmetric]] by simp
    with f show ?thesis by (rule returned)
  next
    case (Inl e)
    obtain msg where m: "handle_db_error e operation = RepositoryError msg (Some e)"
      using handle_db_error_shape by blast
    have 1: "fst ?w = Inl (RepositoryError msg (Some e))"
      using b Inl m by (simp add: with_session_def try_write_def)
    have fs: "faults (snd ?w) = faults s1"
      using b Inl by (simp add: with_session_def try_write_def db_rollback_def)
    from b Inl have "body ?s0 = (Inl e, s1)" by simp
    then have "failed_with ?s0 s1 e" by (rule keeps_schedule_Inl [OF ks])
    then have 2: "failed_with s (snd ?w) e"
      using failed_with_cong [OF f0 fs [symmetric]] by simp
    have 3: "ends_rolled_back (log (snd ?w))"
      using b Inl by (simp add: with_session_def try_write_def db_rollback_def ends_rolled_back_def)
    have 4: "pending (snd ?w) = table (snd ?w)"
      using b Inl by (simp add: with_session_def try_write_def db_rollback_def)
    from 1 m 2 3 4 show ?thesis by (rule raised)
  qed
qed

lemma policy_try_write:
  assumes "keeps_schedule body"
  shows "error_policy operation s (with_session (try_write operation body) s)"
proof (rule try_write_cases [OF assms, of operation s], goal_cases)
  case (1 e msg)
  then show ?case by (simp add: error_policy_def)
next
  case (2 v)
  then show ?case by (simp add: error_policy_def)
qed

lemma create_policy: "error_policy ''create'' s (create model obj s)"
  unfolding create_def by (rule policy_try_write [OF ks_create_body])

lemma create_many_policy: "error_policy ''create_many'' s (create_many model objs s)"
  unfolding create_many_def by (rule policy_try_write [OF ks_create_many_body])

lemma force_delete_policy: "error_policy ''force_delete'' s (force_delete model i s)"
  unfolding force_delete_def by (rule policy_try_write [OF ks_force_delete_body])

lemma force_delete_many_policy:
  "error_policy ''force_delete_many'' s (force_delete_many model ids s)"
  unfolding force_delete_many_def by (rule policy_try_write [OF ks_force_delete_many_body])

lemma soft_delete_policy: "error_policy ''soft_delete'' s (soft_delete model i s)"
proof (cases "hasattr model ''is_deleted''")
  case False
  then show ?thesis by (simp add: soft_delete_def error_policy_def no_fault_hit_same)
next
  case True
  then show ?thesis
    by (simp add: soft_delete_def) (rule policy_try_write [OF ks_flag_body])
qed

lemma restore_policy: "error_policy ''restore'' s (restore model i s)"
proof (cases "hasattr model ''is_deleted''")
  case False
  then show ?thesis by (simp add: restore_def error_policy_def no_fault_hit_same)
next
  case True
  then show ?thesis
    by (simp add: restore_def) (rule policy_try_write [OF ks_flag_body])
qed

lemma update_inner_raises:
  assumes "fst (with_session (try_write operation (bind_db (db_get i) (\<lambda>db_obj.
       case db_obj of
         None \<Rightarrow> return_db (Inr None)
       | Some _ \<Rightarrow>
           (\<lambda>s1. case apply_update model i ud s1 of
                    Inl ex \<Rightarrow> (Inr (Inl ex), s1)
                  | Inr s2 \<Rightarrow>
                      bind_db db_commit
                        (\<lambda>_. bind_db (db_refresh i) (\<lambda>r. return_db (Inr (Some r))))
                        s2)))) s) = Inr (Inl ex)"
  shows "\<exists>key. ex = AttributeError key \<or> ex = ValueError key"
proof -
  from assms obtain s1 where "apply_update model i ud s1 = Inl ex"
    by (auto simp: with_session_def try_write_def bind_db_def db_get_def db_commit_def
        db_refresh_def return_db_def storage_call_alt
        split: prod.splits sum.splits option.splits)
  then show ?thesis by (rule apply_update_raises)
qed

lemma update_policy: "error_policy ''update'' s (update model i obj eu s)"
proof (cases "filter (\<lambda>(k, v). k \<noteq> ''id'') (model_dump eu obj) = []")
  case True
  then show ?thesis by (simp add: update_def error_policy_def no_fault_hit_same)
next
  case False
  let ?ud = "filter (\<lambda>(k, v). k \<noteq> ''id'') (model_dump eu obj)"
  let ?body = "bind_db (db_get i) (\<lambda>db_obj.
       case db_obj of
         None \<Rightarrow> return_db (Inr None)
       | Some _ \<Rightarrow>
           (\<lambda>s1. case apply_update model i ?ud s1 of
                    Inl ex \<Rightarrow> (Inr (Inl ex), s1)
                  | Inr s2 \<Rightarrow>
                      bind_db db_commit
                        (\<lambda>_. bind_db (db_refresh i) (\<lambda>r. return_db (Inr (Some r))))
                        s2))"
  let ?w = "with_session (try_write ''update'' ?body) s"
  have u: "update model i obj eu s = reraise ?w"
    using False by (simp add: update_def Let_def)
  have ks: "keeps_schedule ?body" by (rule ks_update_body)
  show ?thesis
  proof (rule try_write_cases [OF ks, of "''update''" s], goal_cases)
    case raised: (1 e msg)
    have "reraise ?w = (Inl (RepositoryError msg (Some e)), snd ?w)"
      using raised(1) by (cases ?w) (simp add: reraise_def)
    with raised show ?case by (simp add: u error_policy_def)
  next
    case returned: (2 v)
    show ?case
    proof (cases v)
      case (Inr x)
      have "reraise ?w = (Inr x, snd ?w)"
        using returned(1) Inr by (cases ?w) (simp add: reraise_def)
      with returned(2) show ?thesis by (simp add: u error_policy_def)
    next
      case (Inl ex)
      have r: "reraise ?w = (Inl ex, snd ?w)"
        using returned(1) Inl by (cases ?w) (simp add: reraise_def)
      from returned(1) Inl have "fst ?w = Inr (Inl ex)" by simp
      then have "\<exists>key. ex = AttributeError key \<or> ex = ValueError key"
        by (rule update_inner_raises)
      then obtain key where "ex = AttributeError key \<or> ex = ValueError key" ..
      then show ?thesis
      proof
        assume "ex = AttributeError key"
        with returned(2) r show ?thesis by (simp add: u error_policy_def)
      next
        assume "ex = ValueError key"
        with returned(2) r show ?thesis by (simp add: u error_policy_def)
      qed
    qed
  qed
qed

text \<open>
  Claim C7. Each of the seven write operations keeps the error policy. When a storage call
  fails, the operation raises the \<^verbatim>\<open>RepositoryError\<close> that \<^verbatim>\<open>_handle_db_error\<close> builds for the
  name of this operation from the storage error that was raised, which it keeps as its
  cause, and the last storage event before the session is released is a rollback that
  leaves no pending change. With any other outcome no storage call has failed. The message
  names the operation and ends with the text of the cause; it begins with
  \<^verbatim>\<open>Database integrity error during\<close> for an integrity failure and with
  \<^verbatim>\<open>Database error during\<close> for any other storage failure, and both are the same
  \<^verbatim>\<open>RepositoryError\<close>.
\<close>

theorem write_error_policy:
  "error_policy ''create'' s (create model obj s)
   \<and> error_policy ''create_many'' s (create_many model objs s)
   \<and> error_policy ''update'' s (update model i obj eu s)
   \<and> error_policy ''soft_delete'' s (soft_delete model i s)
   \<and> error_policy ''restore'' s (restore model i s)
   \<and> error_policy ''force_delete'' s (force_delete model i s)
   \<and> error_policy ''force_delete_many'' s (force_delete_many model ids s)
   \<and> handle_db_error (IntegrityError m) operation
       = RepositoryError (''Database integrity error during '' @ operation @ '': '' @ m)
           (Some (IntegrityError m))
   \<and> handle_db_error (OtherSQLAlchemyError m) operation
       = RepositoryError (''Database error during '' @ operation @ '': '' @ m)
           (Some (OtherSQLAlchemyError m))"
proof -
  have 8: "handle_db_error (IntegrityError m) operation
       = RepositoryError (''Database integrity error during '' @ operation @ '': '' @ m)
           (Some (IntegrityError m))"
    by simp
  have 9: "handle_db_error (OtherSQLAlchemyError m) operation
       = RepositoryError (''Database error during '' @ operation @ '': '' @ m)
           (Some (OtherSQLAlchemyError m))"
    by simp
  show ?thesis
    by (rule conjI [OF create_policy conjI [OF create_many_policy conjI [OF update_policy
          conjI [OF soft_delete_policy conjI [OF restore_policy conjI [OF force_delete_policy
          conjI [OF force_delete_many_policy conjI [OF 8 9]]]]]]]])
qed

lemma create_failing_example:
  "create post_model (Dict [(''title'', VStr ''x'')]) failing_posts =
     (Inl (RepositoryError ''Database integrity error during create: UNIQUE constraint failed''
            (Some (IntegrityError ''UNIQUE constraint failed''))),
      \<lparr>table = [post_row 1 ''a'' False], pending = [post_row 1 ''a'' False], faults = [],
       log = [Acquire, Commit, Rollback, Release]\<rparr>)"
  by (simp add: create_def with_session_def try_write_def bind_db_def db_add_def db_commit_def
      db_rollback_def storage_call_def failing_posts_def new_instance_def post_model_def Let_def)

theorem write_error_policy_witness:
  "fst (create post_model (Dict [(''title'', VStr ''x'')]) failing_posts)
     = Inl (RepositoryError ''Database integrity error during create: UNIQUE constraint failed''
             (Some (IntegrityError ''UNIQUE constraint failed'')))
   \<and> log (snd (create post_model (Dict [(''title'', VStr ''x'')]) failing_posts))
       = [Acquire, Commit, Rollback, Release]
   \<and> table (snd (create post_model (Dict [(''title'', VStr ''x'')]) failing_posts))
       = table failing_posts
   \<and> failed_with failing_posts
       (snd (create post_model (Dict [(''title'', VStr ''x'')]) failing_posts))
       (IntegrityError ''UNIQUE constraint failed'')
   \<and> ends_rolled_back (log (snd (create post_model (Dict [(''title'', VStr ''x'')]) failing_posts)))"
proof -
  note t = conjunct1 [OF write_error_policy [where s = failing_posts and model = post_model
      and obj = "Dict [(''title'', VStr ''x'')]"]]
  have f: "fst (create post_model (Dict [(''title'', VStr ''x'')]) failing_posts)
     = Inl (RepositoryError ''Database integrity error during create: UNIQUE constraint failed''
             (Some (IntegrityError ''UNIQUE constraint failed'')))"
    by (simp add: create_failing_example)
  have l: "log (snd (create post_model (Dict [(''title'', VStr ''x'')]) failing_posts))
       = [Acquire, Commit, Rollback, Release]"
    by (simp add: create_failing_example)
  have tb: "table (snd (create post_model (Dict [(''title'', VStr ''x'')]) failing_posts))
       = table failing_posts"
  proof -
    have "table failing_posts = [post_row 1 ''a'' False]" by (simp add: failing_posts_def)
    then show ?thesis by (simp add: create_failing_example)
  qed
  from t f have p: "failed_with failing_posts
       (snd (create post_model (Dict [(''title'', VStr ''x'')]) failing_posts))
       (IntegrityError ''UNIQUE constraint failed'')
     \<and> ends_rolled_back (log (snd (create post_model (Dict [(''title'', VStr ''x'')]) failing_posts)))"
    by (simp add: error_policy_def)
  show ?thesis
    by (rule conjI [OF f conjI [OF l conjI [OF tb p]]])
qed

lemma endswith_id_example: "endswith ''external_id'' ''_id''" "endswith ''author_id'' ''_id''"
  by (simp_all add: endswith_def)

text \<open>
  What \<^verbatim>\<open>FieldService._detect_relationship\<close> does with the suffix: a name that ends with
  \<^verbatim>\<open>_id\<close> gives a foreign key to the capitalized rest of the name, before any other rule and
  for every type; a name without the suffix never gives a foreign key.
\<close>

lemma foreign_key_by_name:
  assumes "endswith fname ''_id''"
  shows "detect_relationship fname t =
           Inr (Some \<lparr>rel_type = FOREIGN_KEY,
                       related_model = capitalize (take (length fname - 3) fname),
                       related_field = Some ''id'',
                       rel_description = ''Foreign key to '' @ capitalize (take (length fname - 3) fname)\<rparr>)"
  using assms by (simp add: detect_relationship_def Let_def)

lemma one_to_many_rule_type:
  "one_to_many_rule t = Inr (Some r) \<Longrightarrow> rel_type r = ONE_TO_MANY"
  by (auto simp: one_to_many_rule_def split: if_splits list.splits option.splits sum.splits)

lemma no_foreign_key_without_suffix:
  assumes "\<not> endswith fname ''_id''" and "detect_relationship fname t = Inr (Some r)"
  shows "rel_type r \<noteq> FOREIGN_KEY"
proof (cases "dunder_name t")
  case None
  with assms have "one_to_many_rule t = Inr (Some r)" by (simp add: detect_relationship_def)
  then show ?thesis using one_to_many_rule_type by fastforce
next
  case (Some n)
  show ?thesis
  proof (cases "first_isupper n")
    case (Inl e)
    with assms Some show ?thesis by (simp add: detect_relationship_def)
  next
    case (Inr up)
    show ?thesis
    proof (cases "up \<and> n \<notin> set primitive_names")
      case True
      with assms Some Inr show ?thesis by (auto simp: detect_relationship_def)
    next
      case False
      with assms Some Inr have "one_to_many_rule t = Inr (Some r)"
        by (auto simp: detect_relationship_def)
      then show ?thesis using one_to_many_rule_type by fastforce
    qed
  qed
qed

text \<open>
  Claim C1 fails on \<^verbatim>\<open>FieldService\<close> by a defect of the code. \<^verbatim>\<open>_detect_relationship\<close> makes
  a foreign key of every attribute whose name ends with \<^verbatim>\<open>_id\<close>, whatever its type (it
  computes \<^verbatim>\<open>str(field_type)\<close> and never uses it): \<^verbatim>\<open>external_id: str\<close>, whose base type is
  string, becomes a foreign key to \<^verbatim>\<open>External\<close>. The sibling
  \<^verbatim>\<open>FieldParser._detect_relationship\<close> tests the type as the claim says and finds no
  relationship there. Both make \<^verbatim>\<open>author_id: int\<close> a foreign key to \<^verbatim>\<open>Author\<close>.
\<close>

theorem foreign_key_ignores_type:
  "detect_relationship ''external_id'' py_str =
     Inr (Some \<lparr>rel_type = FOREIGN_KEY, related_model = ''External'', related_field = Some ''id'',
                 rel_description = ''Foreign key to External''\<rparr>)
   \<and> get_base_type py_str = STRING
   \<and> fp_detect_relationship ''external_id'' ''str'' = Inr None
   \<and> detect_relationship ''author_id'' py_int =
       Inr (Some \<lparr>rel_type = FOREIGN_KEY, related_model = ''Author'', related_field = Some ''id'',
                   rel_description = ''Foreign key to Author''\<rparr>)
   \<and> fp_detect_relationship ''author_id'' ''int'' =
       Inr (Some \<lparr>fp_type = ''ForeignKey'', fp_related_model = ''Author'',
                   fp_relationship_type = ''ManyToOne'', fp_description = ''Foreign key to Author''\<rparr>)"
proof -
  have c1: "capitalize ''external'' = ''External''" and c2: "capitalize ''author'' = ''Author''"
    by code_simp+
  have 1: "detect_relationship ''external_id'' py_str =
     Inr (Some \<lparr>rel_type = FOREIGN_KEY, related_model = ''External'', related_field = Some ''id'',
                 rel_description = ''Foreign key to External''\<rparr>)"
    using foreign_key_by_name [OF endswith_id_example(1), of py_str] c1 by simp
  have 2: "get_base_type py_str = STRING"
    by (simp add: py_str_def py_class_def TYPE_MAPPINGS_def)
  have 3: "fp_detect_relationship ''external_id'' ''str'' = Inr None"
    by (simp add: fp_detect_relationship_def endswith_def first_isupper_def isupper_def
        match_wrapper_def Let_def lower_def char_lower_def)
  have 4: "detect_relationship ''author_id'' py_int =
       Inr (Some \<lparr>rel_type = FOREIGN_KEY, related_model = ''Author'', related_field = Some ''id'',
                   rel_description = ''Foreign key to Author''\<rparr>)"
    using foreign_key_by_name [OF endswith_id_example(2), of py_int] c2 by simp
  have 5: "fp_detect_relationship ''author_id'' ''int'' =
       Inr (Some \<lparr>fp_type = ''ForeignKey'', fp_related_model = ''Author'',
                   fp_relationship_type = ''ManyToOne'', fp_description = ''Foreign key to Author''\<rparr>)"
    using c2 by (simp add: fp_detect_relationship_def endswith_def Let_def)
  show ?thesis by (rule conjI [OF 1 conjI [OF 2 conjI [OF 3 conjI [OF 4 5]]]])
qed

lemma is_optional_type_Optional: "is_optional_type (typing_Optional_of an un t) = False"
  by (simp add: is_optional_type_def typing_Optional_of_def typing_Union_def)

lemma parse_field_required:
  "parse_field fname t finfo = Inr f \<Longrightarrow>
     is_required f = (\<not> is_optional_type t \<and> field_default finfo = VNone)"
  by (auto simp: parse_field_def Let_def split: sum.splits)

text \<open>
  Claim C4 fails on \<^verbatim>\<open>FieldService\<close> by a defect of the code. \<^verbatim>\<open>_is_optional_type\<close> compares
  \<^verbatim>\<open>__origin__\<close> with \<^verbatim>\<open>typing.Optional\<close>, but the \<^verbatim>\<open>__origin__\<close> of \<^verbatim>\<open>Optional[T]\<close> is
  \<^verbatim>\<open>typing.Union\<close>, so no optional type is ever detected: \<^verbatim>\<open>bio: Optional[str]\<close> with default
  \<^verbatim>\<open>None\<close> is parsed as not optional, hence required, with semantic type string.
  \<^verbatim>\<open>age: int\<close> is required when its \<^verbatim>\<open>default\<close> attribute is \<^verbatim>\<open>None\<close>, and not required when
  that attribute holds the marker of a missing default.
\<close>

theorem optional_not_detected:
  "is_optional_type (typing_Optional_of an un t) = False
   \<and> (\<exists>f. parse_field ''bio'' (typing_Optional_of (Some ''Optional'') (Some ''Union'') py_str)
              (field_with_default VNone) = Inr f
          \<and> is_required f \<and> field_type f = STRING \<and> default_value f = VNone)
   \<and> (\<exists>f. parse_field ''age'' py_int (field_with_default VNone) = Inr f
          \<and> is_required f \<and> field_type f = INTEGER)
   \<and> (\<exists>f. parse_field ''age'' py_int (field_with_default undefined_marker) = Inr f
          \<and> \<not> is_required f \<and> field_type f = INTEGER)"
proof -
  have up: "isupper CHR ''O''" "\<not> isupper CHR ''i''"
    by (simp_all add: isupper_def)
  have b: "get_base_type (typing_Optional_of (Some ''Optional'') (Some ''Union'') py_str) = STRING"
    by (simp add: typing_Optional_of_def typing_Union_def py_str_def py_class_def py_NoneType_def
        TYPE_MAPPINGS_def named_type_def Let_def lower_def char_lower_def isupper_def startswith_def)
  have d: "\<exists>r. detect_relationship ''bio'' (typing_Optional_of (Some ''Optional'') (Some ''Union'') py_str)
             = Inr r"
    using up by (simp add: detect_relationship_def endswith_def typing_Optional_of_def
        first_isupper_def primitive_names_def)
  have 2: "\<exists>f. parse_field ''bio'' (typing_Optional_of (Some ''Optional'') (Some ''Union'') py_str)
              (field_with_default VNone) = Inr f
          \<and> is_required f \<and> field_type f = STRING \<and> default_value f = VNone"
    using d b by (auto simp: parse_field_def Let_def is_optional_type_Optional field_default_def
        field_with_default_def)
  have bi: "get_base_type py_int = INTEGER"
    by (simp add: py_int_def py_class_def TYPE_MAPPINGS_def)
  have di: "detect_relationship ''age'' py_int = Inr None"
    using up by (simp add: detect_relationship_def endswith_def py_int_def py_class_def
        first_isupper_def one_to_many_rule_def is_list_type_def)
  have oi: "\<not> is_optional_type py_int"
    by (simp add: is_optional_type_def py_int_def py_class_def)
  have 3: "\<exists>f. parse_field ''age'' py_int (field_with_default VNone) = Inr f
          \<and> is_required f \<and> field_type f = INTEGER"
    using di bi oi by (simp add: parse_field_def Let_def field_default_def field_with_default_def)
  have 4: "\<exists>f. parse_field ''age'' py_int (field_with_default undefined_marker) = Inr f
          \<and> \<not> is_required f \<and> field_type f = INTEGER"
    using di bi oi by (simp add: parse_field_def Let_def field_default_def field_with_default_def
        undefined_marker_def)
  show ?thesis by (rule conjI [OF is_optional_type_Optional conjI [OF 2 conjI [OF 3 4]]])
qed

lemma map_of_set_if: "k \<noteq> k' \<Longrightarrow> map_of (set_if c k' v d) k = map_of d k"
  by (simp add: set_if_def update_conv')

lemma field_config_name: "map_of (field_config f) ''name'' = Some (VStr (name f))"
  by (simp add: field_config_def Let_def map_of_set_if update_conv' split: option.splits)

lemma layout_names:
  "map (\<lambda>c. map_of c ''name'') (generate_form_layout fs)
     = map (\<lambda>f. Some (VStr (name f))) (filter (\<lambda>f. name f \<notin> set internal_fields) fs)"
  by (induction fs) (simp_all add: field_config_name)

lemma list_all_update:
  "list_all P d \<Longrightarrow> P (k, v) \<Longrightarrow> list_all P (AList.update k v d)"
  by (induction d) auto

lemma rules_loop_invariant:
  "list_all (\<lambda>(k, r). k \<notin> set internal_fields \<and> r \<noteq> []) rules \<Longrightarrow>
     list_all (\<lambda>(k, r). k \<notin> set internal_fields \<and> r \<noteq> []) (validation_rules_loop rules fs)"
proof (induction fs arbitrary: rules)
  case Nil
  then show ?case by simp
next
  case (Cons f fs)
  let ?P = "\<lambda>(k, r). k \<notin> set internal_fields \<and> r \<noteq> ([] :: (string \<times> pyval) list)"
  let ?rules = "if name f \<in> set internal_fields then rules
        else if field_rules f \<noteq> [] then AList.update (name f) (field_rules f) rules
        else rules"
  have "list_all ?P ?rules"
  proof (cases "name f \<notin> set internal_fields \<and> field_rules f \<noteq> []")
    case True
    then have "?P (name f, field_rules f)" by simp
    with Cons.prems have "list_all ?P (AList.update (name f) (field_rules f) rules)"
      by (rule list_all_update)
    with True show ?thesis by simp
  next
    case False
    with Cons.prems show ?thesis by auto
  qed
  then have "list_all ?P (validation_rules_loop ?rules fs)" by (rule Cons.IH)
  then show ?case by simp
qed

lemma rules_loop_omits:
  "list_all (\<lambda>f. name f = k \<longrightarrow> field_rules f = []) fs \<Longrightarrow>
     map_of (validation_rules_loop rules fs) k = map_of rules k"
proof (induction fs arbitrary: rules)
  case Nil
  then show ?case by simp
next
  case (Cons f fs)
  let ?rules = "if name f \<in> set internal_fields then rules
        else if field_rules f \<noteq> [] then AList.update (name f) (field_rules f) rules
        else rules"
  from Cons.prems have h: "name f = k \<longrightarrow> field_rules f = []"
    and t: "list_all (\<lambda>f. name f = k \<longrightarrow> field_rules f = []) fs"
    by simp_all
  have "map_of (validation_rules_loop ?rules fs) k = map_of ?rules k"
    using t by (rule Cons.IH)
  moreover have "map_of ?rules k = map_of rules k"
    using h by (auto simp: update_conv')
  ultimately show ?case by simp
qed

lemma form_config_parts:
  "get_dynamic_form_config mc = Inr cfg \<Longrightarrow>
     layout cfg = generate_form_layout (form_fields cfg)
     \<and> validation_rules cfg = generate_validation_rules (form_fields cfg)"
  by (auto simp: get_dynamic_form_config_def split: sum.splits)

text \<open>
  Claim C8. The names in the generated form layout are those of the fields other than
  \<^verbatim>\<open>id\<close>, \<^verbatim>\<open>created_at\<close>, \<^verbatim>\<open>updated_at\<close> and \<^verbatim>\<open>is_deleted\<close>, in their order. Every entry of the
  validation rule map has a key other than these four and a rule object that is not empty.
  A name whose fields have no constraint has no entry in the map. The form configuration of
  a model class consists of this layout and this map over its parsed fields.
\<close>

theorem form_config_excludes_internal:
  "map (\<lambda>c. map_of c ''name'') (generate_form_layout fs)
     = map (\<lambda>f. Some (VStr (name f))) (filter (\<lambda>f. name f \<notin> set internal_fields) fs)
   \<and> list_all (\<lambda>(k, r). k \<notin> set internal_fields \<and> r \<noteq> []) (generate_validation_rules fs)
   \<and> (list_all (\<lambda>f. name f = k \<longrightarrow> field_rules f = []) fs \<longrightarrow>
        map_of (generate_validation_rules fs) k = None)
   \<and> (\<forall>cfg. get_dynamic_form_config mc = Inr cfg \<longrightarrow>
        layout cfg = generate_form_layout (form_fields cfg)
        \<and> validation_rules cfg = generate_validation_rules (form_fields cfg))"
proof -
  have 2: "list_all (\<lambda>(k, r). k \<notin> set internal_fields \<and> r \<noteq> []) (generate_validation_rules fs)"
    unfolding generate_validation_rules_def by (rule rules_loop_invariant) simp
  have 3: "list_all (\<lambda>f. name f = k \<longrightarrow> field_rules f = []) fs \<longrightarrow>
        map_of (generate_validation_rules fs) k = None"
  proof
    assume "list_all (\<lambda>f. name f = k \<longrightarrow> field_rules f = []) fs"
    then have "map_of (validation_rules_loop [] fs) k = map_of [] k" by (rule rules_loop_omits)
    then show "map_of (generate_validation_rules fs) k = None"
      by (simp add: generate_validation_rules_def)
  qed
  have 4: "\<forall>cfg. get_dynamic_form_config mc = Inr cfg \<longrightarrow>
        layout cfg = generate_form_layout (form_fields cfg)
        \<and> validation_rules cfg = generate_validation_rules (form_fields cfg)"
    using form_config_parts by blast
  show ?thesis by (rule conjI [OF layout_names conjI [OF 2 conjI [OF 3 4]]])
qed

lemma article_form_example:
  "map_sum id
     (\<lambda>cfg. (map (\<lambda>c. map_of c ''name'') (layout cfg), validation_rules cfg,
             map (\<lambda>f. (name f, field_rules f)) (form_fields cfg)))
     (get_dynamic_form_config (article_class undefined_marker))
   = Inr ([Some (VStr ''title''), Some (VStr ''author_id'')], [],
          [(''id'', [(''required'', VBool True)]), (''title'', []), (''author_id'', []),
           (''created_at'', []), (''updated_at'', []), (''is_deleted'', [])])"
  by code_simp

lemma article_form_example_required:
  "map_sum id
     (\<lambda>cfg. (map (\<lambda>c. map_of c ''name'') (layout cfg), validation_rules cfg))
     (get_dynamic_form_config (article_class VNone))
   = Inr ([Some (VStr ''title''), Some (VStr ''author_id'')],
          [(''title'', [(''required'', VBool True)]), (''author_id'', [(''required'', VBool True)])])"
  by code_simp

theorem form_config_excludes_internal_witness:
  "(\<exists>cfg. get_dynamic_form_config (article_class undefined_marker) = Inr cfg
      \<and> map (\<lambda>c. map_of c ''name'') (layout cfg) = [Some (VStr ''title''), Some (VStr ''author_id'')]
      \<and> list_all (\<lambda>f. name f = ''title'' \<longrightarrow> field_rules f = []) (form_fields cfg)
      \<and> map_of (validation_rules cfg) ''title'' = None
      \<and> map_of (validation_rules cfg) ''id'' = None)
   \<and> (\<exists>cfg. get_dynamic_form_config (article_class VNone) = Inr cfg
      \<and> map (\<lambda>c. map_of c ''name'') (layout cfg) = [Some (VStr ''title''), Some (VStr ''author_id'')]
      \<and> validation_rules cfg
          = [(''title'', [(''required'', VBool True)]), (''author_id'', [(''required'', VBool True)])])"
proof -
  obtain cfg where c: "get_dynamic_form_config (article_class undefined_marker) = Inr cfg"
    using article_form_example
    by (cases "get_dynamic_form_config (article_class undefined_marker)") simp_all
  from article_form_example c
  have l: "map (\<lambda>c. map_of c ''name'') (layout cfg) = [Some (VStr ''title''), Some (VStr ''author_id'')]"
    and v: "validation_rules cfg = []"
    and f: "map (\<lambda>f. (name f, field_rules f)) (form_fields cfg)
              = [(''id'', [(''required'', VBool True)]), (''title'', []), (''author_id'', []),
                 (''created_at'', []), (''updated_at'', []), (''is_deleted'', [])]"
    by simp_all
  have "list_all (\<lambda>(n, r). n = ''title'' \<longrightarrow> r = [])
          (map (\<lambda>f. (name f, field_rules f)) (form_fields cfg))"
    unfolding f by simp
  then have h: "list_all (\<lambda>f. name f = ''title'' \<longrightarrow> field_rules f = []) (form_fields cfg)"
    by (simp add: list_all_iff)
  note t = form_config_excludes_internal [of "form_fields cfg" "''title''"
      "article_class undefined_marker"]
  have p: "validation_rules cfg = generate_validation_rules (form_fields cfg)"
    using t c by blast
  have "map_of (generate_validation_rules (form_fields cfg)) ''title'' = None"
    using t h by blast
  then have n: "map_of (validation_rules cfg) ''title'' = None"
    by (simp only: p)
  have i: "map_of (validation_rules cfg) ''id'' = None"
    by (simp add: v)
  have 1: "\<exists>cfg. get_dynamic_form_config (article_class undefined_marker) = Inr cfg
      \<and> map (\<lambda>c. map_of c ''name'') (layout cfg) = [Some (VStr ''title''), Some (VStr ''author_id'')]
      \<and> list_all (\<lambda>f. name f = ''title'' \<longrightarrow> field_rules f = []) (form_fields cfg)
      \<and> map_of (validation_rules cfg) ''title'' = None
      \<and> map_of (validation_rules cfg) ''id'' = None"
    using c l h n i by (intro exI [of _ cfg] conjI)
  obtain cfg' where c': "get_dynamic_form_config (article_class VNone) = Inr cfg'"
    using article_form_example_required
    by (cases "get_dynamic_form_config (article_class VNone)") simp_all
  from article_form_example_required c'
  have 2: "\<exists>cfg. get_dynamic_form_config (article_class VNone) = Inr cfg
      \<and> map (\<lambda>c. map_of c ''name'') (layout cfg) = [Some (VStr ''title''), Some (VStr ''author_id'')]
      \<and> validation_rules cfg
          = [(''title'', [(''required'', VBool True)]), (''author_id'', [(''required'', VBool True)])]"
    by simp
  show ?thesis by (rule conjI [OF 1 2])
qed

end
